theory Spec2Isabelle
  imports Complex_Main
begin

section \<open>The SaaS ROI calculator: numbers\<close>

text \<open>
  The calculator of \<^verbatim>\<open>src/App.tsx\<close> keeps six numeric inputs and a pricing-model
  flag in component state, validates them (\<^verbatim>\<open>validateInputs\<close>), derives the financial
  metrics (\<^verbatim>\<open>calculations\<close>) and projects them onto three chart points
  (\<^verbatim>\<open>chartData\<close>).

  The numbers of the language are IEEE 754 binary64 values. A finite value is modelled by
  the real number it denotes, and every arithmetic operation rounds its exact result to the
  nearest representable value, ties to even, with gradual underflow and with overflow to an
  infinity. The two zeros are identified: among the operations used here only a division
  by zero tells them apart, and the code never evaluates one (both variable divisors are
  tested positive first, the third divisor is the literal 12).
\<close>

subsection \<open>Rounding to binary64\<close>

text \<open>
  The exponent of the binade of a magnitude: the largest \<open>e\<close> with \<open>2 powi e \<le> x\<close>,
  searched downwards from 1023 and clipped at \<open>-1022\<close>, the exponent of the subnormal
  numbers.
\<close>

fun ilog2_from :: "nat \<Rightarrow> int \<Rightarrow> real \<Rightarrow> int" where
  "ilog2_from 0 e x = e"
| "ilog2_from (Suc k) e x = (if 2 powi e \<le> x then e else ilog2_from k (e - 1) x)"

definition expo :: "real \<Rightarrow> int" where
  "expo x = ilog2_from 2045 1023 \<bar>x\<bar>"

text \<open>The spacing of the representable values around \<open>x\<close>: 53 significant bits.\<close>

definition ulp :: "real \<Rightarrow> real" where
  "ulp x = 2 powi (expo x - 52)"

text \<open>Rounding to the nearest integer, a tie to the even one.\<close>

definition round_even :: "real \<Rightarrow> int" where
  "round_even x =
     (let f = \<lfloor>x\<rfloor>; d = x - of_int f
      in if d < 1 / 2 then f else if 1 / 2 < d then f + 1 else if even f then f else f + 1)"

text \<open>Rounding to the nearest multiple of the spacing.\<close>

definition rnd :: "real \<Rightarrow> real" where
  "rnd x = of_int (round_even (x / ulp x)) * ulp x"

datatype number = Num real | Infinity | NegInfinity | NaN

text \<open>
  The value of an operation whose exact result is \<open>x\<close>: a magnitude of at least
  \<open>2 ^ 1024 - 2 ^ 970\<close> (half a spacing above the largest finite value) overflows.
\<close>

definition fl :: "real \<Rightarrow> number" where
  "fl x =
     (if 2 ^ 1024 - 2 ^ 970 \<le> \<bar>x\<bar> then (if 0 < x then Infinity else NegInfinity)
      else Num (rnd x))"

subsection \<open>Operations of the language\<close>

text \<open>\<^verbatim>\<open>isNaN(x)\<close> on a number.\<close>

definition isNaN :: "number \<Rightarrow> bool" where
  "isNaN x = (case x of NaN \<Rightarrow> True | _ \<Rightarrow> False)"

text \<open>The unary \<^verbatim>\<open>-\<close>.\<close>

fun js_neg :: "number \<Rightarrow> number" where
  "js_neg (Num a) = Num (- a)"
| "js_neg Infinity = NegInfinity"
| "js_neg NegInfinity = Infinity"
| "js_neg NaN = NaN"

text \<open>
  The binary \<^verbatim>\<open>+\<close> and \<^verbatim>\<open>-\<close>: not-a-number is absorbing, an infinity absorbs finite
  values, and infinities that cancel give not-a-number.
\<close>

fun js_add :: "number \<Rightarrow> number \<Rightarrow> number" where
  "js_add NaN y = NaN"
| "js_add x NaN = NaN"
| "js_add (Num a) (Num b) = fl (a + b)"
| "js_add (Num a) y = y"
| "js_add x (Num b) = x"
| "js_add Infinity Infinity = Infinity"
| "js_add NegInfinity NegInfinity = NegInfinity"
| "js_add Infinity NegInfinity = NaN"
| "js_add NegInfinity Infinity = NaN"

fun js_sub :: "number \<Rightarrow> number \<Rightarrow> number" where
  "js_sub NaN y = NaN"
| "js_sub x NaN = NaN"
| "js_sub (Num a) (Num b) = fl (a - b)"
| "js_sub (Num a) Infinity = NegInfinity"
| "js_sub (Num a) NegInfinity = Infinity"
| "js_sub Infinity Infinity = NaN"
| "js_sub Infinity y = Infinity"
| "js_sub NegInfinity NegInfinity = NaN"
| "js_sub NegInfinity y = NegInfinity"

text \<open>
  The binary \<^verbatim>\<open>*\<close>: an infinity times zero is not-a-number, otherwise an infinity
  takes the sign of the product.
\<close>

fun js_mul :: "number \<Rightarrow> number \<Rightarrow> number" where
  "js_mul NaN y = NaN"
| "js_mul x NaN = NaN"
| "js_mul (Num a) (Num b) = fl (a * b)"
| "js_mul (Num a) y = (if a = 0 then NaN else if 0 < a then y else js_neg y)"
| "js_mul x (Num b) = (if b = 0 then NaN else if 0 < b then x else js_neg x)"
| "js_mul Infinity y = y"
| "js_mul NegInfinity y = js_neg y"

text \<open>
  The binary \<^verbatim>\<open>/\<close>: a finite value over an infinity is zero, an infinity over an
  infinity is not-a-number. A zero divisor is read as the positive zero.
\<close>

fun js_div :: "number \<Rightarrow> number \<Rightarrow> number" where
  "js_div NaN y = NaN"
| "js_div x NaN = NaN"
| "js_div (Num a) (Num b) =
     (if b = 0 then (if a = 0 then NaN else if 0 < a then Infinity else NegInfinity)
      else fl (a / b))"
| "js_div (Num a) y = Num 0"
| "js_div x (Num b) = (if 0 \<le> b then x else js_neg x)"
| "js_div x y = NaN"

text \<open>
  The comparisons \<^verbatim>\<open>x > y\<close> and \<^verbatim>\<open>x >= y\<close>: false as soon as one side is
  not-a-number.
\<close>

fun js_gt :: "number \<Rightarrow> number \<Rightarrow> bool" where
  "js_gt NaN y = False"
| "js_gt x NaN = False"
| "js_gt (Num a) (Num b) = (b < a)"
| "js_gt Infinity Infinity = False"
| "js_gt Infinity y = True"
| "js_gt NegInfinity y = False"
| "js_gt (Num a) Infinity = False"
| "js_gt (Num a) NegInfinity = True"

fun js_ge :: "number \<Rightarrow> number \<Rightarrow> bool" where
  "js_ge NaN y = False"
| "js_ge x NaN = False"
| "js_ge (Num a) (Num b) = (b \<le> a)"
| "js_ge Infinity y = True"
| "js_ge x NegInfinity = True"
| "js_ge (Num a) Infinity = False"
| "js_ge NegInfinity y = False"

text \<open>\<^verbatim>\<open>Math.max(x, y)\<close>: not-a-number if an argument is, else the larger argument.\<close>

definition Math_max :: "number \<Rightarrow> number \<Rightarrow> number" where
  "Math_max x y = (if isNaN x \<or> isNaN y then NaN else if js_gt y x then y else x)"

text \<open>The nullish coalescing \<^verbatim>\<open>x ?? d\<close>; an absent property reads as \<^verbatim>\<open>undefined\<close>.\<close>

definition nullish :: "number option \<Rightarrow> number \<Rightarrow> number" where
  "nullish x d = (case x of None \<Rightarrow> d | Some v \<Rightarrow> v)"

section \<open>Data model\<close>

text \<open>
  The state only ever holds finite numbers: the initial values are literals and
  \<^verbatim>\<open>handleChange\<close> stores \<^verbatim>\<open>0\<close> whenever \<^verbatim>\<open>parseFloat\<close> yields not-a-number. The
  state variables are therefore of type \<^typ>\<open>real\<close>; they enter the arithmetic as
  \<open>Num\<close> values. A value that the state can hold is a binary64 value, that is an \<open>x\<close>
  with \<open>fl x = Num x\<close>; a decimal that is not one, such as \<^verbatim>\<open>0.1\<close>, is stored as the
  nearest one, \<open>rnd (1 / 10)\<close>. The properties below hold for every real value of the state
  variables, hence for every value that the state can hold.
\<close>

text \<open>
  \<^verbatim>\<open>type InputErrors\<close>: one optional message per input field. The fields carry the
  suffix \<open>_err\<close> to keep them apart from the state variables of the same name.
\<close>

record InputErrors =
  licenseCost_err :: "string option"
  numUsers_err :: "string option"
  hoursSaved_err :: "string option"
  hourlyRate_err :: "string option"
  implementationCost_err :: "string option"
  timeToValue_err :: "string option"

text \<open>\<^verbatim>\<open>Object.keys(newErrors)\<close>: the names of the properties that were assigned.\<close>

definition Object_keys :: "InputErrors \<Rightarrow> string list" where
  "Object_keys e =
     (case licenseCost_err e of None \<Rightarrow> [] | Some _ \<Rightarrow> [''licenseCost'']) @
     (case numUsers_err e of None \<Rightarrow> [] | Some _ \<Rightarrow> [''numUsers'']) @
     (case hoursSaved_err e of None \<Rightarrow> [] | Some _ \<Rightarrow> [''hoursSaved'']) @
     (case hourlyRate_err e of None \<Rightarrow> [] | Some _ \<Rightarrow> [''hourlyRate'']) @
     (case implementationCost_err e of None \<Rightarrow> [] | Some _ \<Rightarrow> [''implementationCost'']) @
     (case timeToValue_err e of None \<Rightarrow> [] | Some _ \<Rightarrow> [''timeToValue''])"

datatype PricingModel = monthly | annual

text \<open>The \<^verbatim>\<open>useState\<close> variables of the component that the computation reads.\<close>

record AppState =
  licenseCost :: real
  numUsers :: real
  hoursSaved :: real
  hourlyRate :: real
  implementationCost :: real
  timeToValue :: real
  pricingModel :: PricingModel

text \<open>The initial values given to \<^verbatim>\<open>useState\<close>.\<close>

definition initialState :: AppState where
  "initialState =
     \<lparr>licenseCost = 50, numUsers = 10, hoursSaved = 5, hourlyRate = 75,
      implementationCost = 5000, timeToValue = 3, pricingModel = monthly\<rparr>"

section \<open>Validation\<close>

text \<open>
  \<^verbatim>\<open>validateInputs\<close> starts from the empty object, assigns a message for every field
  whose check fails, stores the object with \<^verbatim>\<open>setErrors\<close> and returns whether it has
  no keys. The model returns the stored object together with the boolean.
\<close>

definition noErrors :: InputErrors where
  "noErrors =
     \<lparr>licenseCost_err = None, numUsers_err = None, hoursSaved_err = None,
      hourlyRate_err = None, implementationCost_err = None, timeToValue_err = None\<rparr>"

definition validateInputs :: "AppState \<Rightarrow> InputErrors \<times> bool" where
  "validateInputs s =
     (let newErrors = noErrors;
          newErrors = (if licenseCost s < 0
                       then newErrors\<lparr>licenseCost_err := Some ''Cannot be negative.''\<rparr>
                       else newErrors);
          newErrors = (if numUsers s < 1
                       then newErrors\<lparr>numUsers_err := Some ''Must be at least 1.''\<rparr>
                       else newErrors);
          newErrors = (if hoursSaved s < 0
                       then newErrors\<lparr>hoursSaved_err := Some ''Cannot be negative.''\<rparr>
                       else newErrors);
          newErrors = (if hourlyRate s < 0
                       then newErrors\<lparr>hourlyRate_err := Some ''Cannot be negative.''\<rparr>
                       else newErrors);
          newErrors = (if implementationCost s < 0
                       then newErrors\<lparr>implementationCost_err := Some ''Cannot be negative.''\<rparr>
                       else newErrors);
          newErrors = (if timeToValue s < 0
                       then newErrors\<lparr>timeToValue_err := Some ''Cannot be negative.''\<rparr>
                       else newErrors)
      in (newErrors, length (Object_keys newErrors) = 0))"

section \<open>Derived metrics\<close>

text \<open>
  The object returned by \<^verbatim>\<open>calculations\<close>. The object of the invalid branch has no
  property \<^verbatim>\<open>firstYearAdjustedSavings\<close>, so that field is optional.

  In \<open>calculations\<close> the local constants of the source keep their names and their order;
  those that share a name with a property of the result carry a prime. Every operator of
  the source is the corresponding operation on numbers, applied in the source's order.
\<close>

record Calculations =
  annualSavings :: number
  firstYearAdjustedSavings :: "number option"
  firstYearTotalCost :: number
  annualROI :: number
  paybackPeriodMonths :: number
  annualNetValue :: number
  annualLicenseCost :: number
  totalSavingsOver3Years :: number
  monthlyNetSavings :: number

definition calculations :: "AppState \<Rightarrow> Calculations" where
  "calculations s =
     (if \<not> snd (validateInputs s) then
        \<lparr>annualSavings = NaN,
         firstYearAdjustedSavings = None,
         firstYearTotalCost = NaN,
         annualROI = NaN,
         paybackPeriodMonths = NaN,
         annualNetValue = NaN,
         annualLicenseCost = NaN,
         totalSavingsOver3Years = NaN,
         monthlyNetSavings = NaN\<rparr>
      else
        let actualLicenseCost =
              (if pricingModel s = annual then Num (licenseCost s)
               else js_mul (Num (licenseCost s)) (Num 12));
            annualLicenseCost' = js_mul actualLicenseCost (Num (numUsers s));
            weeklySavingsPerUser = js_mul (Num (hoursSaved s)) (Num (hourlyRate s));
            totalWeeklySavings = js_mul weeklySavingsPerUser (Num (numUsers s));
            annualSavings' = js_mul totalWeeklySavings (Num 52);
            firstYearTotalCost' = js_add annualLicenseCost' (Num (implementationCost s));
            annualNetValue' = js_sub annualSavings' annualLicenseCost';
            annualROI' =
              (if js_gt firstYearTotalCost' (Num 0)
               then js_mul (js_div annualNetValue' firstYearTotalCost') (Num 100)
               else if js_gt annualNetValue' (Num 0) then Infinity
               else Num 0);
            monthlyNetSavings' = js_div (js_sub annualSavings' annualLicenseCost') (Num 12);
            paybackPeriodMonths' =
              (if js_gt monthlyNetSavings' (Num 0)
               then js_add (Num (timeToValue s))
                      (js_div (Num (implementationCost s)) monthlyNetSavings')
               else Infinity);
            firstYearEffectiveMonthsOfSavings =
              Math_max (Num 0) (js_sub (Num 12) (Num (timeToValue s)));
            firstYearAdjustedSavings' =
              js_mul annualSavings' (js_div firstYearEffectiveMonthsOfSavings (Num 12));
            totalSavingsOver3Years' =
              js_add firstYearAdjustedSavings' (js_mul annualSavings' (Num 2))
        in \<lparr>annualSavings = annualSavings',
            firstYearAdjustedSavings = Some firstYearAdjustedSavings',
            firstYearTotalCost = firstYearTotalCost',
            annualROI = annualROI',
            paybackPeriodMonths = paybackPeriodMonths',
            annualNetValue = annualNetValue',
            annualLicenseCost = annualLicenseCost',
            totalSavingsOver3Years = totalSavingsOver3Years',
            monthlyNetSavings = monthlyNetSavings'\<rparr>)"

section \<open>Chart projection\<close>

text \<open>One entry of the array given to the chart; \<^verbatim>\<open>'Net Value'\<close> is \<open>Net_Value\<close>.\<close>

record ChartPoint =
  name :: string
  Cost :: number
  Savings :: "number option"
  Net_Value :: number

definition chartData :: "Calculations \<Rightarrow> ChartPoint list" where
  "chartData c =
     (if isNaN (firstYearTotalCost c) then
        [\<lparr>name = ''Year 1'', Cost = Num 0, Savings = Some (Num 0), Net_Value = Num 0\<rparr>,
         \<lparr>name = ''Year 2'', Cost = Num 0, Savings = Some (Num 0), Net_Value = Num 0\<rparr>,
         \<lparr>name = ''Year 3'', Cost = Num 0, Savings = Some (Num 0), Net_Value = Num 0\<rparr>]
      else
        let year1NetValue =
              js_sub (nullish (firstYearAdjustedSavings c) (Num 0))
                     (nullish (Some (firstYearTotalCost c)) (Num 0))
        in [\<lparr>name = ''Year 1'', Cost = firstYearTotalCost c,
             Savings = firstYearAdjustedSavings c, Net_Value = year1NetValue\<rparr>,
            \<lparr>name = ''Year 2'', Cost = annualLicenseCost c,
             Savings = Some (annualSavings c), Net_Value = annualNetValue c\<rparr>,
            \<lparr>name = ''Year 3'', Cost = annualLicenseCost c,
             Savings = Some (annualSavings c), Net_Value = annualNetValue c\<rparr>])"

section \<open>Properties of rounding\<close>

subsection \<open>Exponent, spacing and rounding to the nearest\<close>

lemma ilog2_from_bounds: "e - int k \<le> ilog2_from k e x \<and> ilog2_from k e x \<le> e"
proof (induction k arbitrary: e)
  case 0
  show ?case by simp
next
  case (Suc k)
  from Suc [of "e - 1"] show ?case by auto
qed

lemma ilog2_from_lower: "e - int k < ilog2_from k e x \<Longrightarrow> 2 powi (ilog2_from k e x) \<le> x"
proof (induction k arbitrary: e)
  case 0
  then show ?case by simp
next
  case (Suc k)
  from Suc.prems Suc.IH [of "e - 1"] show ?case
    by (auto split: if_splits)
qed

lemma ilog2_from_upper: "ilog2_from k e x < e \<Longrightarrow> x < 2 powi (ilog2_from k e x + 1)"
proof (induction k arbitrary: e)
  case 0
  then show ?case by simp
next
  case (Suc k)
  show ?case
  proof (cases "2 powi e \<le> x")
    case True
    with Suc.prems show ?thesis by simp
  next
    case False
    then have r: "ilog2_from (Suc k) e x = ilog2_from k (e - 1) x" by simp
    show ?thesis
    proof (cases "ilog2_from k (e - 1) x < e - 1")
      case True
      from Suc.IH [OF True] r show ?thesis by simp
    next
      case False
      with ilog2_from_bounds [of "e - 1" k x] have "ilog2_from k (e - 1) x = e - 1" by simp
      with r \<open>\<not> 2 powi e \<le> x\<close> show ?thesis by simp
    qed
  qed
qed

lemma expo_range: "- 1022 \<le> expo x" "expo x \<le> 1023"
  using ilog2_from_bounds [of 1023 2045 "\<bar>x\<bar>"] by (simp_all add: expo_def)

lemma expo_lower: "- 1022 < expo x \<Longrightarrow> 2 powi (expo x) \<le> \<bar>x\<bar>"
  using ilog2_from_lower [of 1023 2045 "\<bar>x\<bar>"] by (simp add: expo_def)

lemma expo_upper: "expo x < 1023 \<Longrightarrow> \<bar>x\<bar> < 2 powi (expo x + 1)"
  using ilog2_from_upper [of 2045 1023 "\<bar>x\<bar>"] by (simp add: expo_def)

lemma two_powi_less_cancel: "(2::real) powi a < 2 powi b \<Longrightarrow> a < b"
  by (metis linorder_not_less power_int_increasing one_le_numeral)

lemma expo_eqI:
  assumes "2 powi r \<le> \<bar>x\<bar>" and "\<bar>x\<bar> < 2 powi (r + 1)" and "- 1022 \<le> r" and "r \<le> 1023"
  shows "expo x = r"
proof (rule ccontr)
  assume "expo x \<noteq> r"
  then consider "expo x < r" | "r < expo x" by linarith
  then show False
  proof cases
    case 1
    with assms(4) have "expo x < 1023" by simp
    from expo_upper [OF this] have "\<bar>x\<bar> < 2 powi (expo x + 1)" .
    also have "\<dots> \<le> 2 powi r" using 1 by (intro power_int_increasing) simp_all
    finally show False using assms(1) by simp
  next
    case 2
    with assms(3) have "- 1022 < expo x" by simp
    from expo_lower [OF this] assms(2) have "(2::real) powi (expo x) < 2 powi (r + 1)" by simp
    then have "expo x < r + 1" by (rule two_powi_less_cancel)
    with 2 show False by simp
  qed
qed

lemma expo_small: "\<bar>x\<bar> < 2 powi (- 1022) \<Longrightarrow> expo x = - 1022"
proof (rule ccontr)
  assume a: "\<bar>x\<bar> < 2 powi (- 1022)" and "expo x \<noteq> - 1022"
  with expo_range(1) [of x] have g: "- 1022 < expo x" by simp
  from expo_lower [OF g] a have "(2::real) powi (expo x) < 2 powi (- 1022)" by simp
  then have "expo x < - 1022" by (rule two_powi_less_cancel)
  with g show False by simp
qed

lemma expo_minus [simp]: "expo (- x) = expo x"
  by (simp add: expo_def)

lemma expo_mono: "\<bar>x\<bar> \<le> \<bar>y\<bar> \<Longrightarrow> expo x \<le> expo y"
proof (rule ccontr)
  assume le: "\<bar>x\<bar> \<le> \<bar>y\<bar>" and "\<not> expo x \<le> expo y"
  then have lt: "expo y < expo x" by simp
  with expo_range(2) [of x] have "expo y < 1023" by simp
  from expo_upper [OF this] have "\<bar>y\<bar> < 2 powi (expo y + 1)" .
  also have "\<dots> \<le> 2 powi (expo x)" using lt by (intro power_int_increasing) simp_all
  also have "\<dots> \<le> \<bar>x\<bar>" using lt expo_range(1) [of y] by (intro expo_lower) simp
  finally show False using le by simp
qed

lemma ulp_pos [simp]: "0 < ulp x"
  by (simp add: ulp_def)

lemma ulp_neq_0 [simp]: "ulp x \<noteq> 0"
  by (simp add: ulp_def)

lemma ulp_nonneg [simp]: "0 \<le> ulp x"
  by (simp add: ulp_def)

lemma ulp_times_2_53: "2 powi 53 * ulp x = 2 powi (expo x + 1)"
  using power_int_add [of "2::real" 53 "expo x - 52"] by (simp add: ulp_def add.commute)

lemma ulp_times_2_52: "2 powi 52 * ulp x = 2 powi (expo x)"
  using power_int_add [of "2::real" 52 "expo x - 52"] by (simp add: ulp_def)

lemma ulp_minus [simp]: "ulp (- x) = ulp x"
  by (simp add: ulp_def)

lemma round_even_cases: "round_even x = \<lfloor>x\<rfloor> \<or> round_even x = \<lfloor>x\<rfloor> + 1"
  by (simp add: round_even_def Let_def)

lemma round_even_of_int [simp]: "round_even (of_int k) = k"
  by (simp add: round_even_def Let_def)

lemma round_even_0 [simp]: "round_even 0 = 0"
  using round_even_of_int [of 0] by simp

lemma round_even_err: "\<bar>of_int (round_even x) - x\<bar> \<le> 1 / 2"
  unfolding round_even_def Let_def by (auto; linarith)

lemma round_even_mono: "x \<le> y \<Longrightarrow> round_even x \<le> round_even y"
proof -
  assume le: "x \<le> y"
  then have f: "\<lfloor>x\<rfloor> \<le> \<lfloor>y\<rfloor>" by (rule floor_mono)
  show ?thesis
  proof (cases "\<lfloor>x\<rfloor> = \<lfloor>y\<rfloor>")
    case True
    with le show ?thesis
      by (auto simp add: round_even_def Let_def)
  next
    case False
    with f have "\<lfloor>x\<rfloor> + 1 \<le> \<lfloor>y\<rfloor>" by simp
    with round_even_cases [of x] round_even_cases [of y] show ?thesis by auto
  qed
qed

lemma round_even_minus: "round_even (- x) = - round_even x"
proof (cases "x \<in> \<int>")
  case True
  then obtain k where "x = of_int k" by (auto elim: Ints_cases)
  then have "- x = of_int (- k)" by simp
  then show ?thesis using \<open>x = of_int k\<close> by (simp only: round_even_of_int)
next
  case False
  then have "x \<noteq> of_int \<lfloor>x\<rfloor>"
    by (metis Ints_of_int)
  then have fl: "\<lfloor>- x\<rfloor> = - \<lfloor>x\<rfloor> - 1"
    by (simp add: floor_minus ceiling_altdef)
  show ?thesis
    unfolding round_even_def Let_def fl by (auto; linarith?)
qed


lemma rnd_minus: "rnd (- x) = - rnd x"
  by (simp add: rnd_def round_even_minus)

lemma rnd_0 [simp]: "rnd 0 = 0"
  by (simp add: rnd_def)

lemma round_even_nonneg: "0 \<le> x \<Longrightarrow> 0 \<le> round_even x"
  using round_even_mono [of 0 x] round_even_of_int [of 0] by simp

lemma rnd_nonneg: "0 \<le> x \<Longrightarrow> 0 \<le> rnd x"
proof -
  assume "0 \<le> x"
  then have "0 \<le> x / ulp x" by simp
  then have "0 \<le> round_even (x / ulp x)" by (rule round_even_nonneg)
  then show ?thesis by (simp add: rnd_def)
qed

lemma rnd_err: "\<bar>rnd x - x\<bar> \<le> ulp x / 2"
proof -
  have "rnd x - x = (of_int (round_even (x / ulp x)) - x / ulp x) * ulp x"
    using ulp_pos [of x] by (simp add: rnd_def left_diff_distrib)
  then have "\<bar>rnd x - x\<bar> = \<bar>of_int (round_even (x / ulp x)) - x / ulp x\<bar> * ulp x"
    by (simp add: abs_mult)
  also have "\<dots> \<le> (1 / 2) * ulp x"
    by (intro mult_right_mono round_even_err) simp
  finally show ?thesis by simp
qed

lemma rnd_upper_in_binade:
  assumes "0 \<le> x" and "expo x < 1023"
  shows "rnd x \<le> 2 powi (expo x + 1)"
proof -
  have "x < 2 powi (expo x + 1)" using expo_upper [OF assms(2)] assms(1) by simp
  also have "\<dots> = 2 powi 53 * ulp x"
    by (simp only: ulp_times_2_53)
  finally have "x / ulp x \<le> of_int (2 ^ 53)" by (simp add: pos_divide_le_eq)
  from round_even_mono [OF this] have "round_even (x / ulp x) \<le> 2 ^ 53"
    by (simp only: round_even_of_int)
  then have "of_int (round_even (x / ulp x)) * ulp x \<le> of_int (2 ^ 53) * ulp x"
    by (intro mult_right_mono) (simp_all del: of_int_power of_int_numeral)
  also have "\<dots> = 2 powi (expo x + 1)"
    using ulp_times_2_53 [of x] by simp
  finally show ?thesis by (simp add: rnd_def)
qed

lemma rnd_lower_in_binade:
  assumes "0 \<le> x" and "- 1022 < expo x"
  shows "2 powi (expo x) \<le> rnd x"
proof -
  have "2 powi (expo x) \<le> x" using expo_lower [OF assms(2)] assms(1) by simp
  moreover have e: "(2::real) powi (expo x) = 2 powi 52 * ulp x"
    by (simp only: ulp_times_2_52)
  ultimately have "of_int (2 ^ 52) \<le> x / ulp x" by (simp add: pos_le_divide_eq)
  from round_even_mono [OF this] have "2 ^ 52 \<le> round_even (x / ulp x)"
    by (simp only: round_even_of_int)
  then have "of_int (2 ^ 52) * ulp x \<le> of_int (round_even (x / ulp x)) * ulp x"
    by (intro mult_right_mono) (simp_all del: of_int_power of_int_numeral)
  with e show ?thesis by (simp add: rnd_def)
qed

lemma rnd_mono_nonneg:
  assumes "0 \<le> x" and "x \<le> y"
  shows "rnd x \<le> rnd y"
proof -
  from assms have y: "0 \<le> y" by simp
  from assms have "expo x \<le> expo y" by (intro expo_mono) simp
  then consider "expo x = expo y" | "expo x < expo y" by linarith
  then show ?thesis
  proof cases
    case 1
    then have u: "ulp x = ulp y" by (simp add: ulp_def)
    have "x / ulp y \<le> y / ulp y" using assms(2) by (intro divide_right_mono) simp_all
    from round_even_mono [OF this] show ?thesis
      by (simp add: rnd_def u)
  next
    case 2
    with expo_range(2) [of y] have "expo x < 1023" by simp
    from rnd_upper_in_binade [OF assms(1) this] have "rnd x \<le> 2 powi (expo x + 1)" .
    also have "\<dots> \<le> 2 powi (expo y)" using 2 by (intro power_int_increasing) simp_all
    also have "\<dots> \<le> rnd y" using 2 expo_range(1) [of x] by (intro rnd_lower_in_binade y) simp
    finally show ?thesis .
  qed
qed

lemma rnd_mono: "x \<le> y \<Longrightarrow> rnd x \<le> rnd y"
proof -
  assume le: "x \<le> y"
  consider "0 \<le> x" | "y \<le> 0" | "x < 0" "0 < y" by linarith
  then show ?thesis
  proof cases
    case 1
    then show ?thesis using le by (rule rnd_mono_nonneg)
  next
    case 2
    with le have "rnd (- y) \<le> rnd (- x)" by (intro rnd_mono_nonneg) simp_all
    then show ?thesis by (simp add: rnd_minus)
  next
    case 3
    from 3(1) have "0 \<le> rnd (- x)" by (intro rnd_nonneg) simp
    moreover from 3(2) have "0 \<le> rnd y" by (intro rnd_nonneg) simp
    ultimately show ?thesis by (simp add: rnd_minus)
  qed
qed


lemma two_powi_le_cancel: "(2::real) powi a \<le> 2 powi b \<Longrightarrow> a \<le> b"
  by (metis linorder_not_less power_int_strict_increasing one_less_numeral_iff semiring_norm(76))

lemma rnd_exactI: "x / ulp x = of_int k \<Longrightarrow> rnd x = x"
proof -
  assume a: "x / ulp x = of_int k"
  then have "round_even (x / ulp x) = k" by simp
  then have "rnd x = (x / ulp x) * ulp x" by (simp add: rnd_def a)
  then show ?thesis by simp
qed

lemma rnd_dyadic:
  assumes k: "\<bar>k\<bar> \<le> 2 ^ 53" and j: "- 1074 \<le> j"
  shows "rnd (of_int k * 2 powi j) = of_int k * 2 powi j"
proof -
  define x :: real where "x = of_int k * 2 powi j"
  define e where "e = expo x"
  have u: "ulp x = 2 powi (e - 52)" by (simp add: ulp_def e_def)
  have ax: "\<bar>x\<bar> = of_int \<bar>k\<bar> * 2 powi j" by (simp add: x_def abs_mult)
  have e_le: "e \<le> j + 53"
  proof (cases "- 1022 < e")
    case True
    then have "2 powi e \<le> \<bar>x\<bar>" unfolding e_def by (rule expo_lower)
    also have "\<dots> \<le> of_int (2 ^ 53) * 2 powi j"
      unfolding ax using k by (intro mult_right_mono) (simp_all del: of_int_power of_int_numeral)
    also have "\<dots> = 2 powi (53 + j)" by (simp add: power_int_add)
    finally show ?thesis using two_powi_le_cancel [of e "53 + j"] by simp
  next
    case False
    with j show ?thesis by simp
  qed
  have "\<exists>m. x / ulp x = of_int m"
  proof (cases "e \<le> j + 52")
    case True
    then obtain n where n: "j = (e - 52) + int n"
      by (metis add.commute add_diff_eq diff_add_cancel zero_le_imp_eq_int diff_ge_0_iff_ge)
    have "x / ulp x = of_int k * (2 powi j / 2 powi (e - 52))" by (simp add: u) (simp add: x_def)
    also have "2 powi j / 2 powi (e - 52) = (2::real) ^ n"
      unfolding n by (simp add: power_int_add)
    finally have "x / ulp x = of_int (k * 2 ^ n)" by simp
    then show ?thesis ..
  next
    case False
    with e_le have ej: "e = j + 53" by simp
    with j have "- 1022 < e" by simp
    then have "2 powi e \<le> \<bar>x\<bar>" unfolding e_def by (rule expo_lower)
    then have "2 powi 53 * 2 powi j \<le> of_int \<bar>k\<bar> * (2::real) powi j"
      unfolding ax ej by (simp add: power_int_add add.commute)
    then have "(2::real) powi 53 \<le> of_int \<bar>k\<bar>" by simp
    then have "(of_int (2 ^ 53) :: real) \<le> of_int \<bar>k\<bar>" by simp
    then have "2 ^ 53 \<le> \<bar>k\<bar>" by (simp only: of_int_le_iff)
    with k have "\<bar>k\<bar> = 2 ^ 53" by simp
    then consider "k = 2 ^ 53" | "k = - (2 ^ 53)" by linarith
    then obtain m where m: "k = 2 * m" by cases auto
    have "ulp x = 2 * 2 powi j" unfolding u ej using power_int_add [of "2::real" 1 j] by simp
    then have "x / ulp x = of_int m" by (simp add: x_def m)
    then show ?thesis ..
  qed
  then obtain m where "x / ulp x = of_int m" ..
  then have "rnd x = x" by (rule rnd_exactI)
  then show ?thesis by (simp add: x_def)
qed

lemma rnd_of_int: "\<bar>k\<bar> \<le> 2 ^ 53 \<Longrightarrow> rnd (of_int k) = of_int k"
  using rnd_dyadic [of k 0] by simp

lemma round_even_abs_le:
  assumes "\<bar>x\<bar> \<le> of_int n"
  shows "\<bar>round_even x\<bar> \<le> n"
proof -
  from assms have "x \<le> of_int n" and "of_int (- n) \<le> x" by simp_all
  from round_even_mono [OF this(1)] round_even_mono [OF this(2)]
  show ?thesis by (simp only: round_even_of_int)
qed

lemma rnd_idem:
  assumes "\<bar>rnd x\<bar> < 2 powi 1024"
  shows "rnd (rnd x) = rnd x"
proof -
  define k where "k = round_even (x / ulp x)"
  have r: "rnd x = of_int k * 2 powi (expo x - 52)" by (simp add: rnd_def k_def ulp_def)
  have "\<bar>k\<bar> \<le> 2 ^ 53"
  proof (cases "expo x < 1023")
    case True
    from expo_upper [OF this] have "\<bar>x\<bar> < 2 powi 53 * ulp x" by (simp only: ulp_times_2_53)
    then have "\<bar>x / ulp x\<bar> \<le> of_int (2 ^ 53)" by (simp add: pos_divide_le_eq)
    then show ?thesis unfolding k_def by (rule round_even_abs_le)
  next
    case False
    with expo_range(2) [of x] have e: "expo x = 1023" by simp
    have "of_int \<bar>k\<bar> * 2 powi 971 = \<bar>rnd x\<bar>" by (simp add: r e abs_mult)
    also have "\<dots> < 2 powi 1024" by (rule assms)
    also have "\<dots> = 2 powi 53 * 2 powi 971" by (simp add: power_int_add [symmetric])
    finally have "(of_int \<bar>k\<bar> :: real) < 2 powi 53" by simp
    then have "(of_int \<bar>k\<bar> :: real) < of_int (2 ^ 53)" by simp
    then have "\<bar>k\<bar> < 2 ^ 53" by (simp only: of_int_less_iff)
    then show ?thesis by simp
  qed
  moreover have "- 1074 \<le> expo x - 52" using expo_range(1) [of x] by simp
  ultimately show ?thesis unfolding r by (rule rnd_dyadic)
qed

subsection \<open>Overflow and finite results\<close>

lemma fl_cases:
  obtains (Pos) "2 ^ 1024 - 2 ^ 970 \<le> x" "fl x = Infinity"
  | (Neg) "x \<le> - (2 ^ 1024 - 2 ^ 970)" "fl x = NegInfinity"
  | (Fin) "\<bar>x\<bar> < 2 ^ 1024 - 2 ^ 970" "fl x = Num (rnd x)"
proof (cases "2 ^ 1024 - 2 ^ 970 \<le> \<bar>x\<bar>")
  case True
  show ?thesis
  proof (cases "0 < x")
    case True
    with \<open>2 ^ 1024 - 2 ^ 970 \<le> \<bar>x\<bar>\<close> show ?thesis by (intro Pos) (simp_all add: fl_def)
  next
    case False
    with \<open>2 ^ 1024 - 2 ^ 970 \<le> \<bar>x\<bar>\<close> show ?thesis by (intro Neg) (simp_all add: fl_def)
  qed
next
  case False
  then show ?thesis by (intro Fin) (simp_all add: fl_def)
qed

lemma fl_not_NaN [simp]: "fl x \<noteq> NaN"
  by (simp add: fl_def)

lemma rnd_maxd: "rnd (2 ^ 1024 - 2 ^ 971) = 2 ^ 1024 - 2 ^ 971"
proof -
  have "(2 ^ 1024 - 2 ^ 971 :: real) = of_int (2 ^ 53 - 1) * 2 powi 971" by simp
  moreover have "rnd (of_int (2 ^ 53 - 1) * 2 powi 971) = of_int (2 ^ 53 - 1) * 2 powi 971"
    by (rule rnd_dyadic) simp_all
  ultimately show ?thesis by simp
qed

lemma rnd_below_threshold:
  assumes "0 \<le> x" and "x < 2 ^ 1024 - 2 ^ 970"
  shows "rnd x \<le> 2 ^ 1024 - 2 ^ 971"
proof (cases "x \<le> 2 ^ 1024 - 2 ^ 971")
  case True
  from rnd_mono [OF this] show ?thesis by (simp only: rnd_maxd)
next
  case False
  then have "2 powi 1023 \<le> \<bar>x\<bar>" and "\<bar>x\<bar> < 2 powi (1023 + 1)"
    using assms by simp_all
  then have e: "expo x = 1023" by (rule expo_eqI) simp_all
  then have u: "ulp x = 2 ^ 971" by (simp add: ulp_def)
  define z where "z = x / 2 ^ 971"
  have "z < 2 ^ 53 - 1 / 2" using assms(2) by (simp add: z_def)
  moreover from round_even_err [of z] have "of_int (round_even z) \<le> z + 1 / 2" by linarith
  ultimately have "(of_int (round_even z) :: real) < 2 ^ 53" by linarith
  then have "(of_int (round_even z) :: real) < of_int (2 ^ 53)" by simp
  then have "round_even z < 2 ^ 53" by (simp only: of_int_less_iff)
  then have "round_even z \<le> 2 ^ 53 - 1" by simp
  then have "(of_int (round_even z) :: real) \<le> of_int (2 ^ 53 - 1)" by (simp only: of_int_le_iff)
  then have "of_int (round_even z) * (2 ^ 971 :: real) \<le> of_int (2 ^ 53 - 1) * 2 ^ 971"
    by (intro mult_right_mono) simp_all
  then show ?thesis by (simp add: rnd_def u z_def)
qed

lemma rnd_abs: "\<bar>rnd x\<bar> = rnd \<bar>x\<bar>"
proof (cases "0 \<le> x")
  case True
  then show ?thesis using rnd_nonneg [of x] by simp
next
  case False
  then have "0 \<le> rnd (- x)" by (intro rnd_nonneg) simp
  with False show ?thesis by (simp add: rnd_minus)
qed

lemma rnd_finite:
  assumes "\<bar>x\<bar> < 2 ^ 1024 - 2 ^ 970"
  shows "\<bar>rnd x\<bar> \<le> 2 ^ 1024 - 2 ^ 971"
  unfolding rnd_abs using assms by (intro rnd_below_threshold) simp_all

text \<open>A finite result of an operation is representable: rounding it again changes nothing.\<close>

lemma fl_fl:
  assumes "fl x = Num y"
  shows "fl y = Num y"
proof -
  from assms have x: "\<bar>x\<bar> < 2 ^ 1024 - 2 ^ 970" and y: "y = rnd x"
    by (auto simp add: fl_def split: if_splits)
  from rnd_finite [OF x] have b: "\<bar>rnd x\<bar> \<le> 2 ^ 1024 - 2 ^ 971" .
  then have "\<bar>rnd x\<bar> < 2 powi 1024" by simp
  then have "rnd (rnd x) = rnd x" by (rule rnd_idem)
  with b show ?thesis by (simp add: fl_def y)
qed

lemma fl_Num_iff: "fl y = Num y \<longleftrightarrow> \<bar>y\<bar> < 2 ^ 1024 - 2 ^ 970 \<and> rnd y = y"
  by (auto simp add: fl_def)

lemma fl_minus: "fl (- x) = js_neg (fl x)"
  by (simp add: fl_def rnd_minus)

lemma fl_0 [simp]: "fl 0 = Num 0"
  by (simp add: fl_def)

text \<open>Exactness: a value with at most 53 significant bits is not changed.\<close>

lemma fl_exact:
  assumes "x * 2 ^ n \<in> \<int>" and "\<bar>x * 2 ^ n\<bar> \<le> 2 ^ 53" and "n \<le> 1074"
  shows "fl x = Num x"
proof -
  from assms(1) obtain k where k: "x * 2 ^ n = of_int k" by (auto elim: Ints_cases)
  with assms(2) have "(of_int \<bar>k\<bar> :: real) \<le> of_int (2 ^ 53)" by simp
  then have kb: "\<bar>k\<bar> \<le> 2 ^ 53" by (simp only: of_int_le_iff)
  have x: "x = of_int k * 2 powi (- int n)"
    using k by (simp add: power_int_minus field_simps)
  have "rnd (of_int k * 2 powi (- int n)) = of_int k * 2 powi (- int n)"
    using kb assms(3) by (intro rnd_dyadic) simp_all
  then have r: "rnd x = x" by (simp add: x [symmetric])
  have "\<bar>x\<bar> * 1 \<le> \<bar>x\<bar> * 2 ^ n" by (intro mult_left_mono) simp_all
  also have "\<dots> = \<bar>x * 2 ^ n\<bar>" by (simp add: abs_mult)
  also have "\<dots> \<le> 2 ^ 53" by (rule assms(2))
  finally have "\<bar>x\<bar> < 2 ^ 1024 - 2 ^ 970" by simp
  with r show ?thesis by (simp add: fl_def)
qed

lemma fl_integer: "x \<in> \<int> \<Longrightarrow> \<bar>x\<bar> \<le> 2 ^ 53 \<Longrightarrow> fl x = Num x"
  using fl_exact [of x 0] by simp

text \<open>Monotonicity, in the form used below: a representable lower bound survives rounding.\<close>

lemma fl_ge:
  assumes "c \<le> x" and "fl c = Num c"
  shows "js_ge (fl x) (Num c)"
proof (cases x rule: fl_cases)
  case Pos
  then show ?thesis by simp
next
  case Neg
  with assms show ?thesis by (simp add: fl_Num_iff)
next
  case Fin
  from assms(2) rnd_mono [OF assms(1)] have "c \<le> rnd x" by (simp add: fl_Num_iff)
  with Fin show ?thesis by simp
qed

lemma fl_le_Num:
  assumes "x \<le> c" and "fl c = Num c"
  shows "fl x = NegInfinity \<or> (\<exists>y. fl x = Num y \<and> y \<le> c)"
proof (cases x rule: fl_cases)
  case Pos
  with assms show ?thesis by (simp add: fl_Num_iff)
next
  case Neg
  then show ?thesis by simp
next
  case Fin
  from assms(2) rnd_mono [OF assms(1)] have "rnd x \<le> c" by (simp add: fl_Num_iff)
  with Fin show ?thesis by simp
qed

lemma js_ge_Num_cases:
  assumes "js_ge x (Num c)"
  obtains (Inf) "x = Infinity" | (Fin) y where "x = Num y" "c \<le> y"
  using assms by (cases x) simp_all

text \<open>Evaluation of a rounding in a known binade.\<close>

lemma rnd_eval:
  assumes "2 powi e \<le> \<bar>x\<bar>" and "\<bar>x\<bar> < 2 powi (e + 1)" and "- 1022 \<le> e" and "e \<le> 1023"
  shows "rnd x = of_int (round_even (x / 2 powi (e - 52))) * 2 powi (e - 52)"
  using expo_eqI [OF assms] by (simp add: rnd_def ulp_def)

text \<open>
  A decimal that is not representable is stored as the nearest binary64 value: \<^verbatim>\<open>0.1\<close>
  is \<open>rnd (1 / 10)\<close>, the value \<open>3602879701896397 / 2 ^ 55\<close>.
\<close>

lemma rnd_tenth: "rnd (1 / 10) = 3602879701896397 / 2 ^ 55"
  by (simp add: rnd_eval [where e = "- 4"] round_even_def Let_def)

subsection \<open>Results of the operations\<close>

lemma js_mul_commute: "js_mul x y = js_mul y x"
  by (cases x; cases y) (simp_all add: mult.commute)

lemma js_mul_Num_fl: "js_mul x y = Num r \<Longrightarrow> fl r = Num r"
  by (cases x; cases y) (auto dest: fl_fl split: if_splits)

lemma js_add_Num_fl: "js_add x y = Num r \<Longrightarrow> fl r = Num r"
  by (cases x; cases y) (auto dest: fl_fl)

lemma fl_nonneg: "0 \<le> x \<Longrightarrow> js_ge (fl x) (Num 0)"
  by (rule fl_ge) simp_all

lemma js_mul_nonneg:
  assumes "js_ge x (Num 0)" and "0 < b"
  shows "js_ge (js_mul x (Num b)) (Num 0)"
  using assms(1)
proof (cases rule: js_ge_Num_cases)
  case Inf
  with assms(2) show ?thesis by simp
next
  case (Fin a)
  with assms(2) show ?thesis by (simp add: fl_nonneg)
qed

lemma js_add_nonneg:
  assumes "js_ge x (Num 0)" and "0 \<le> b"
  shows "js_ge (js_add x (Num b)) (Num 0)"
  using assms(1)
proof (cases rule: js_ge_Num_cases)
  case Inf
  then show ?thesis by simp
next
  case (Fin a)
  with assms(2) show ?thesis by (simp add: fl_nonneg)
qed

lemma js_ge_not_NaN: "js_ge x y \<Longrightarrow> x \<noteq> NaN"
  by (cases x) simp_all

text \<open>The difference of two finite non-negative numbers is finite.\<close>

lemma js_sub_finite:
  assumes "0 \<le> a" and "fl a = Num a" and "0 \<le> l" and "fl l = Num l"
  obtains n where "js_sub (Num a) (Num l) = Num n" and "- l \<le> n" and "n \<le> a"
proof -
  have "fl (- l) = Num (- l)" using assms(4) by (simp add: fl_minus)
  moreover have "- l \<le> a - l" using assms(1) by simp
  ultimately have "js_ge (fl (a - l)) (Num (- l))" by (intro fl_ge)
  moreover have "a - l \<le> a" using assms(3) by simp
  from fl_le_Num [OF this assms(2)]
  have "fl (a - l) = NegInfinity \<or> (\<exists>y. fl (a - l) = Num y \<and> y \<le> a)" .
  ultimately obtain n where "fl (a - l) = Num n" "- l \<le> n" "n \<le> a" by auto
  then show ?thesis by (intro that [of n]) simp_all
qed

text \<open>The ROI expression on a finite net value and a positive total cost.\<close>

lemma roi_finite_bound:
  assumes "- t \<le> n" and "0 < t"
  shows "js_ge (js_mul (js_div (Num n) (Num t)) (Num 100)) (Num (- 100))"
proof -
  have m1: "fl (- 1) = Num (- 1)" by (rule fl_integer) simp_all
  have m100: "fl (- 100) = Num (- 100)" by (rule fl_integer) simp_all
  from assms have "- 1 \<le> n / t" by (simp add: pos_le_divide_eq)
  then have "js_ge (fl (n / t)) (Num (- 1))" using m1 by (rule fl_ge)
  then show ?thesis
  proof (cases rule: js_ge_Num_cases)
    case Inf
    with assms(2) show ?thesis by simp
  next
    case (Fin q)
    from Fin(2) have "- 1 * 100 \<le> q * 100" by (intro mult_right_mono) simp_all
    then have "- 100 \<le> q * 100" by simp
    then have "js_ge (fl (q * 100)) (Num (- 100))" using m100 by (rule fl_ge)
    with Fin(1) assms(2) show ?thesis by simp
  qed
qed

text \<open>
  The three-way ROI expression over a license cost \<open>L\<close>, savings \<open>S\<close> and an
  implementation cost \<open>i\<close>.
\<close>

lemma roi_bound:
  assumes L: "js_ge L (Num 0)" and S: "js_ge S (Num 0)"
    and Lr: "\<And>l. L = Num l \<Longrightarrow> fl l = Num l"
    and Sr: "\<And>a. S = Num a \<Longrightarrow> fl a = Num a"
    and i: "0 \<le> i"
    and T: "T = js_add L (Num i)" and N: "N = js_sub S L"
    and R: "R = (if js_gt T (Num 0) then js_mul (js_div N T) (Num 100)
                 else if js_gt N (Num 0) then Infinity else Num 0)"
  shows "R = NaN \<or> js_ge R (Num (- 100))"
    and "L \<noteq> Infinity \<Longrightarrow> S \<noteq> Infinity \<Longrightarrow> js_ge R (Num (- 100))"
proof -
  have else_ok: "\<not> js_gt T (Num 0) \<Longrightarrow> js_ge R (Num (- 100))"
    by (simp add: R)
  have fin: "js_ge R (Num (- 100))" if l: "L = Num l" and a: "S = Num a" for l a
  proof (cases "js_gt T (Num 0)")
    case False
    then show ?thesis by (rule else_ok)
  next
    case True
    from L l have l0: "0 \<le> l" by simp
    from S a have a0: "0 \<le> a" by simp
    from js_sub_finite [OF a0 Sr [OF a] l0 Lr [OF l]]
    obtain n where n: "js_sub (Num a) (Num l) = Num n" and nl: "- l \<le> n" by blast
    have "js_ge (fl (l + i)) (Num l)" using i Lr [OF l] by (intro fl_ge) simp_all
    then have "js_ge T (Num l)" by (simp add: T l)
    then show ?thesis
    proof (cases rule: js_ge_Num_cases)
      case Inf
      then show ?thesis using True by (simp add: R N l a n del: js_sub.simps)
    next
      case (Fin t)
      from True Fin(1) have "0 < t" by simp
      moreover from nl Fin(2) have "- t \<le> n" by simp
      ultimately have "js_ge (js_mul (js_div (Num n) (Num t)) (Num 100)) (Num (- 100))"
        by (intro roi_finite_bound)
      then show ?thesis using True by (simp add: R N l a n Fin(1) del: js_sub.simps js_div.simps js_mul.simps)
    qed
  qed
  show "L \<noteq> Infinity \<Longrightarrow> S \<noteq> Infinity \<Longrightarrow> js_ge R (Num (- 100))"
    using L S fin by (cases L; cases S) simp_all
  show "R = NaN \<or> js_ge R (Num (- 100))"
  proof (cases "js_gt T (Num 0)")
    case False
    then show ?thesis by (simp add: else_ok)
  next
    case True
    from L show ?thesis
    proof (cases rule: js_ge_Num_cases)
      case Inf
      with S True show ?thesis by (cases S) (simp_all add: R T N)
    next
      case (Fin l)
      note l = Fin(1)
      from S show ?thesis
      proof (cases rule: js_ge_Num_cases)
        case Inf
        have "T \<noteq> NaN \<and> T \<noteq> NegInfinity" using True by (cases T) simp_all
        then show ?thesis using True by (cases T) (simp_all add: R N l Inf)
      next
        case (Fin a)
        from fin [OF l Fin(1)] show ?thesis by simp
      qed
    qed
  qed
qed

text \<open>The payback expression never is not-a-number.\<close>

lemma payback_not_NaN:
  assumes "0 \<le> i"
  shows "(if js_gt M (Num 0) then js_add (Num t) (js_div (Num i) M) else Infinity) \<noteq> NaN"
proof (cases M)
  case (Num m)
  have "js_add (Num t) (fl (i / m)) \<noteq> NaN"
    by (cases "i / m" rule: fl_cases) simp_all
  with Num show ?thesis by simp
qed simp_all

text \<open>The months of savings in the first year, as a fraction of the year.\<close>

lemma first_year_fraction:
  assumes "0 \<le> t"
  obtains g where "js_div (Math_max (Num 0) (js_sub (Num 12) (Num t))) (Num 12) = Num g"
    and "0 \<le> g" and "g \<le> 1"
proof -
  have f12: "fl 12 = Num 12" by (rule fl_integer) simp_all
  have f1: "fl 1 = Num 1" by (rule fl_integer) simp_all
  have "12 - t \<le> 12" using assms by simp
  from fl_le_Num [OF this f12]
  have "fl (12 - t) = NegInfinity \<or> (\<exists>y. fl (12 - t) = Num y \<and> y \<le> 12)" .
  then have "\<exists>e. Math_max (Num 0) (js_sub (Num 12) (Num t)) = Num e \<and> 0 \<le> e \<and> e \<le> 12"
  proof
    assume "fl (12 - t) = NegInfinity"
    then show ?thesis by (simp add: Math_max_def isNaN_def)
  next
    assume "\<exists>y. fl (12 - t) = Num y \<and> y \<le> 12"
    then obtain y where "fl (12 - t) = Num y" and "y \<le> 12" by blast
    then show ?thesis by (cases "0 < y") (simp_all add: Math_max_def isNaN_def)
  qed
  then obtain e where e: "Math_max (Num 0) (js_sub (Num 12) (Num t)) = Num e"
    and e0: "0 \<le> e" and e12: "e \<le> 12"
    by blast
  from e0 have "js_ge (fl (e / 12)) (Num 0)" by (intro fl_nonneg) simp
  moreover have "e / 12 \<le> 1" using e12 by simp
  from fl_le_Num [OF this f1]
  have "fl (e / 12) = NegInfinity \<or> (\<exists>y. fl (e / 12) = Num y \<and> y \<le> 1)" .
  ultimately obtain g where "fl (e / 12) = Num g" and "0 \<le> g" and "g \<le> 1" by auto
  moreover from e have "Math_max (Num 0) (fl (12 - t)) = Num e" by simp
  ultimately show ?thesis by (intro that [of g]) simp_all
qed

lemma three_year_not_NaN:
  assumes "0 \<le> a" and "fl a = Num a" and "0 \<le> g" and "g \<le> 1"
  shows "js_mul (Num a) (Num g) \<noteq> NaN"
    and "js_add (js_mul (Num a) (Num g)) (js_mul (Num a) (Num 2)) \<noteq> NaN"
proof -
  have "a * g \<le> a * 1" using assms by (intro mult_left_mono) simp_all
  then have "a * g \<le> a" by simp
  from fl_le_Num [OF this assms(2)]
  have "fl (a * g) = NegInfinity \<or> (\<exists>y. fl (a * g) = Num y \<and> y \<le> a)" .
  moreover have "js_ge (fl (a * g)) (Num 0)" using assms by (intro fl_nonneg) simp
  ultimately obtain f where f: "fl (a * g) = Num f" by auto
  show "js_mul (Num a) (Num g) \<noteq> NaN" by simp
  show "js_add (js_mul (Num a) (Num g)) (js_mul (Num a) (Num 2)) \<noteq> NaN"
    by (cases "a * 2" rule: fl_cases) (simp_all add: f)
qed

section \<open>Facts about validation and the derived metrics\<close>

lemma validateInputs_ok_iff:
  "snd (validateInputs s) \<longleftrightarrow>
     0 \<le> licenseCost s \<and> 1 \<le> numUsers s \<and> 0 \<le> hoursSaved s \<and> 0 \<le> hourlyRate s \<and>
     0 \<le> implementationCost s \<and> 0 \<le> timeToValue s"
  by (simp add: validateInputs_def Let_def noErrors_def Object_keys_def)

lemma validateInputs_errors:
  "fst (validateInputs s) =
     \<lparr>licenseCost_err = (if licenseCost s < 0 then Some ''Cannot be negative.'' else None),
      numUsers_err = (if numUsers s < 1 then Some ''Must be at least 1.'' else None),
      hoursSaved_err = (if hoursSaved s < 0 then Some ''Cannot be negative.'' else None),
      hourlyRate_err = (if hourlyRate s < 0 then Some ''Cannot be negative.'' else None),
      implementationCost_err =
        (if implementationCost s < 0 then Some ''Cannot be negative.'' else None),
      timeToValue_err = (if timeToValue s < 0 then Some ''Cannot be negative.'' else None)\<rparr>"
  by (simp add: validateInputs_def Let_def noErrors_def)

lemma calculations_invalid:
  assumes "\<not> snd (validateInputs s)"
  shows "calculations s =
     \<lparr>annualSavings = NaN, firstYearAdjustedSavings = None, firstYearTotalCost = NaN,
      annualROI = NaN, paybackPeriodMonths = NaN, annualNetValue = NaN,
      annualLicenseCost = NaN, totalSavingsOver3Years = NaN, monthlyNetSavings = NaN\<rparr>"
  using assms by (simp add: calculations_def)

text \<open>Each property of the result of a valid input, over the properties it is computed from.\<close>

lemma calculations_valid:
  assumes "snd (validateInputs s)"
  shows "annualLicenseCost (calculations s) =
           js_mul (if pricingModel s = annual then Num (licenseCost s)
                   else js_mul (Num (licenseCost s)) (Num 12)) (Num (numUsers s))"
    and "annualSavings (calculations s) =
           js_mul (js_mul (js_mul (Num (hoursSaved s)) (Num (hourlyRate s))) (Num (numUsers s)))
             (Num 52)"
    and "firstYearTotalCost (calculations s) =
           js_add (annualLicenseCost (calculations s)) (Num (implementationCost s))"
    and "annualNetValue (calculations s) =
           js_sub (annualSavings (calculations s)) (annualLicenseCost (calculations s))"
    and "annualROI (calculations s) =
           (if js_gt (firstYearTotalCost (calculations s)) (Num 0)
            then js_mul (js_div (annualNetValue (calculations s))
                   (firstYearTotalCost (calculations s))) (Num 100)
            else if js_gt (annualNetValue (calculations s)) (Num 0) then Infinity
            else Num 0)"
    and "monthlyNetSavings (calculations s) =
           js_div (js_sub (annualSavings (calculations s)) (annualLicenseCost (calculations s)))
             (Num 12)"
    and "paybackPeriodMonths (calculations s) =
           (if js_gt (monthlyNetSavings (calculations s)) (Num 0)
            then js_add (Num (timeToValue s))
                   (js_div (Num (implementationCost s)) (monthlyNetSavings (calculations s)))
            else Infinity)"
    and "firstYearAdjustedSavings (calculations s) =
           Some (js_mul (annualSavings (calculations s))
             (js_div (Math_max (Num 0) (js_sub (Num 12) (Num (timeToValue s)))) (Num 12)))"
    and "totalSavingsOver3Years (calculations s) =
           js_add (js_mul (annualSavings (calculations s))
               (js_div (Math_max (Num 0) (js_sub (Num 12) (Num (timeToValue s)))) (Num 12)))
             (js_mul (annualSavings (calculations s)) (Num 2))"
  using assms by (simp_all add: calculations_def Let_def)

lemma license_nonneg:
  assumes "snd (validateInputs s)"
  shows "js_ge (annualLicenseCost (calculations s)) (Num 0)"
proof -
  from assms have lc: "0 \<le> licenseCost s" and nu: "0 < numUsers s"
    by (simp_all add: validateInputs_ok_iff)
  have "js_ge (if pricingModel s = annual then Num (licenseCost s)
               else js_mul (Num (licenseCost s)) (Num 12)) (Num 0)"
    using lc by (simp add: fl_nonneg)
  then show ?thesis
    unfolding calculations_valid(1) [OF assms] using nu by (rule js_mul_nonneg)
qed

lemma savings_nonneg:
  assumes "snd (validateInputs s)"
  shows "js_ge (annualSavings (calculations s)) (Num 0)"
proof -
  from assms have hs: "0 \<le> hoursSaved s" and hr: "0 \<le> hourlyRate s" and nu: "0 < numUsers s"
    by (simp_all add: validateInputs_ok_iff)
  have "js_ge (js_mul (Num (hoursSaved s)) (Num (hourlyRate s))) (Num 0)"
    using hs hr by (simp add: fl_nonneg)
  then have "js_ge (js_mul (js_mul (Num (hoursSaved s)) (Num (hourlyRate s))) (Num (numUsers s)))
      (Num 0)"
    using nu by (rule js_mul_nonneg)
  then show ?thesis
    unfolding calculations_valid(2) [OF assms] by (rule js_mul_nonneg) simp
qed

lemma license_representable:
  assumes "snd (validateInputs s)" and "annualLicenseCost (calculations s) = Num l"
  shows "fl l = Num l"
  using assms(2) unfolding calculations_valid(1) [OF assms(1)] by (rule js_mul_Num_fl)

lemma savings_representable:
  assumes "snd (validateInputs s)" and "annualSavings (calculations s) = Num a"
  shows "fl a = Num a"
  using assms(2) unfolding calculations_valid(2) [OF assms(1)] by (rule js_mul_Num_fl)

lemma total_cost_nonneg:
  assumes "snd (validateInputs s)"
  shows "js_ge (firstYearTotalCost (calculations s)) (Num 0)"
proof -
  from assms have "0 \<le> implementationCost s" by (simp add: validateInputs_ok_iff)
  with license_nonneg [OF assms] show ?thesis
    unfolding calculations_valid(3) [OF assms] by (rule js_add_nonneg)
qed

lemma roi_valid:
  assumes "snd (validateInputs s)"
  shows "annualROI (calculations s) = NaN \<or> js_ge (annualROI (calculations s)) (Num (- 100))"
    and "annualLicenseCost (calculations s) \<noteq> Infinity \<Longrightarrow>
         annualSavings (calculations s) \<noteq> Infinity \<Longrightarrow>
         js_ge (annualROI (calculations s)) (Num (- 100))"
proof -
  from assms have i: "0 \<le> implementationCost s" by (simp add: validateInputs_ok_iff)
  note r = roi_bound [OF license_nonneg [OF assms] savings_nonneg [OF assms]
      license_representable [OF assms] savings_representable [OF assms] i
      calculations_valid(3) [OF assms] calculations_valid(4) [OF assms]
      calculations_valid(5) [OF assms]]
  show "annualROI (calculations s) = NaN \<or> js_ge (annualROI (calculations s)) (Num (- 100))"
    by (rule r(1))
  show "annualLicenseCost (calculations s) \<noteq> Infinity \<Longrightarrow>
        annualSavings (calculations s) \<noteq> Infinity \<Longrightarrow>
        js_ge (annualROI (calculations s)) (Num (- 100))"
    by (rule r(2))
qed

text \<open>With finite license cost and savings, no property of the result is not-a-number.\<close>

lemma finite_no_NaN:
  assumes ok: "snd (validateInputs s)"
    and l: "annualLicenseCost (calculations s) = Num l"
    and a: "annualSavings (calculations s) = Num a"
  shows "firstYearTotalCost (calculations s) \<noteq> NaN"
    and "annualROI (calculations s) \<noteq> NaN"
    and "paybackPeriodMonths (calculations s) \<noteq> NaN"
    and "annualNetValue (calculations s) \<noteq> NaN"
    and "totalSavingsOver3Years (calculations s) \<noteq> NaN"
    and "monthlyNetSavings (calculations s) \<noteq> NaN"
proof -
  from ok have i: "0 \<le> implementationCost s" and t: "0 \<le> timeToValue s"
    by (simp_all add: validateInputs_ok_iff)
  from license_nonneg [OF ok] l have l0: "0 \<le> l" by simp
  from savings_nonneg [OF ok] a have a0: "0 \<le> a" by simp
  note lr = license_representable [OF ok l]
  note ar = savings_representable [OF ok a]
  show "firstYearTotalCost (calculations s) \<noteq> NaN"
    using total_cost_nonneg [OF ok] by (rule js_ge_not_NaN)
  from js_sub_finite [OF a0 ar l0 lr]
  obtain n where n: "js_sub (Num a) (Num l) = Num n" by blast
  then have net: "annualNetValue (calculations s) = Num n"
    by (simp only: calculations_valid(4) [OF ok] l a)
  then show "annualNetValue (calculations s) \<noteq> NaN" by simp
  have "monthlyNetSavings (calculations s) = fl (n / 12)"
    by (simp add: calculations_valid(6) [OF ok] l a n del: js_sub.simps)
  then show "monthlyNetSavings (calculations s) \<noteq> NaN" by simp
  show "paybackPeriodMonths (calculations s) \<noteq> NaN"
    unfolding calculations_valid(7) [OF ok] using i by (rule payback_not_NaN)
  from l a have "js_ge (annualROI (calculations s)) (Num (- 100))"
    by (intro roi_valid(2) [OF ok]) simp_all
  then show "annualROI (calculations s) \<noteq> NaN" by (rule js_ge_not_NaN)
  from first_year_fraction [OF t]
  obtain g where g: "js_div (Math_max (Num 0) (js_sub (Num 12) (Num (timeToValue s)))) (Num 12) = Num g"
    and g0: "0 \<le> g" and g1: "g \<le> 1" by blast
  show "totalSavingsOver3Years (calculations s) \<noteq> NaN"
    unfolding calculations_valid(9) [OF ok] a g
    by (rule three_year_not_NaN(2) [OF a0 ar g0 g1])
qed

text \<open>Rounding between two representable bounds.\<close>

lemma fl_between:
  assumes "lo \<le> x" and "x \<le> hi" and "fl lo = Num lo" and "fl hi = Num hi"
  shows "fl x = Num (rnd x)" and "lo \<le> rnd x" and "rnd x \<le> hi"
proof -
  from assms(3,4) have lo: "\<bar>lo\<bar> < 2 ^ 1024 - 2 ^ 970" "rnd lo = lo"
    and hi: "\<bar>hi\<bar> < 2 ^ 1024 - 2 ^ 970" "rnd hi = hi"
    by (simp_all add: fl_Num_iff)
  from assms(1,2) lo(1) hi(1) have "\<bar>x\<bar> < 2 ^ 1024 - 2 ^ 970" by linarith
  then show "fl x = Num (rnd x)" by (simp add: fl_def)
  from rnd_mono [OF assms(1)] lo(2) show "lo \<le> rnd x" by simp
  from rnd_mono [OF assms(2)] hi(2) show "rnd x \<le> hi" by simp
qed

text \<open>The metrics of the initial state.\<close>

lemma calculations_initialState:
  obtains roi payback where
    "calculations initialState =
       \<lparr>annualSavings = Num 195000,
        firstYearAdjustedSavings = Some (Num 146250),
        firstYearTotalCost = Num 11000,
        annualROI = Num roi,
        paybackPeriodMonths = Num payback,
        annualNetValue = Num 189000,
        annualLicenseCost = Num 6000,
        totalSavingsOver3Years = Num 536250,
        monthlyNetSavings = Num 15750\<rparr>"
    and "112602700 / 65536 \<le> roi" and "roi \<le> 112602800 / 65536"
    and "217413 / 65536 \<le> payback" and "payback \<le> 217414 / 65536"
proof -
  define q where "q = rnd (189 / 11)"
  define p where "p = rnd (20 / 63)"
  have e1: "fl (1126027 / 65536) = Num (1126027 / 65536)"
    by (rule fl_exact [where n = 16]) simp_all
  have e2: "fl (1126028 / 65536) = Num (1126028 / 65536)"
    by (rule fl_exact [where n = 16]) simp_all
  have e3: "fl (112602700 / 65536) = Num (112602700 / 65536)"
    by (rule fl_exact [where n = 16]) simp_all
  have e4: "fl (112602800 / 65536) = Num (112602800 / 65536)"
    by (rule fl_exact [where n = 16]) simp_all
  have e5: "fl (20805 / 65536) = Num (20805 / 65536)"
    by (rule fl_exact [where n = 16]) simp_all
  have e6: "fl (20806 / 65536) = Num (20806 / 65536)"
    by (rule fl_exact [where n = 16]) simp_all
  have e7: "fl (217413 / 65536) = Num (217413 / 65536)"
    by (rule fl_exact [where n = 16]) simp_all
  have e8: "fl (217414 / 65536) = Num (217414 / 65536)"
    by (rule fl_exact [where n = 16]) simp_all
  have e9: "fl (3 / 4) = Num (3 / 4)"
    by (rule fl_exact [where n = 2]) simp_all
  have "1126027 / 65536 \<le> (189 / 11 :: real)" and "(189 / 11 :: real) \<le> 1126028 / 65536"
    by simp_all
  from fl_between [OF this e1 e2]
  have q: "fl (189 / 11) = Num q" and q1: "1126027 / 65536 \<le> q" and q2: "q \<le> 1126028 / 65536"
    by (simp_all add: q_def)
  from q1 q2 have "112602700 / 65536 \<le> q * 100" and "q * 100 \<le> 112602800 / 65536"
    by simp_all
  from fl_between [OF this e3 e4]
  have r: "fl (q * 100) = Num (rnd (q * 100))"
    and r1: "112602700 / 65536 \<le> rnd (q * 100)" and r2: "rnd (q * 100) \<le> 112602800 / 65536" .
  have "20805 / 65536 \<le> (20 / 63 :: real)" and "(20 / 63 :: real) \<le> 20806 / 65536"
    by simp_all
  from fl_between [OF this e5 e6]
  have p: "fl (20 / 63) = Num p" and p1: "20805 / 65536 \<le> p" and p2: "p \<le> 20806 / 65536"
    by (simp_all add: p_def)
  from p1 p2 have "217413 / 65536 \<le> 3 + p" and "3 + p \<le> 217414 / 65536"
    by simp_all
  from fl_between [OF this e7 e8]
  have b: "fl (3 + p) = Num (rnd (3 + p))"
    and b1: "217413 / 65536 \<le> rnd (3 + p)" and b2: "rnd (3 + p) \<le> 217414 / 65536" .
  have "calculations initialState =
       \<lparr>annualSavings = Num 195000,
        firstYearAdjustedSavings = Some (Num 146250),
        firstYearTotalCost = Num 11000,
        annualROI = Num (rnd (q * 100)),
        paybackPeriodMonths = Num (rnd (3 + p)),
        annualNetValue = Num 189000,
        annualLicenseCost = Num 6000,
        totalSavingsOver3Years = Num 536250,
        monthlyNetSavings = Num 15750\<rparr>"
    by (simp add: calculations_def validateInputs_def noErrors_def Object_keys_def Let_def
        initialState_def Math_max_def isNaN_def fl_integer e9 q r p b)
  then show ?thesis using r1 r2 b1 b2 by (rule that)
qed

lemma initialState_valid:
  "0 \<le> licenseCost initialState \<and> 1 \<le> numUsers initialState \<and>
   0 \<le> hoursSaved initialState \<and> 0 \<le> hourlyRate initialState \<and>
   0 \<le> implementationCost initialState \<and> 0 \<le> timeToValue initialState"
  by (simp add: initialState_def)

lemma fl_overflow: "2 ^ 1024 - 2 ^ 970 \<le> x \<Longrightarrow> fl x = Infinity"
  by (simp add: fl_def)

lemma fl_three_quarters: "fl (3 / 4) = Num (3 / 4)"
  by (rule fl_exact [where n = 2]) simp_all

lemmas evaluation =
  calculations_def validateInputs_def noErrors_def Object_keys_def Let_def initialState_def
  Math_max_def isNaN_def fl_integer fl_three_quarters

text \<open>
  The metrics of a valid state whose license cost overflows: \<open>2 ^ 1023\<close> is a finite
  binary64 value (about \<^verbatim>\<open>8.99e307\<close>), twelve times it is not.
\<close>

lemma calculations_overflow:
  "calculations (initialState\<lparr>licenseCost := 2 ^ 1023\<rparr>) =
     \<lparr>annualSavings = Num 195000,
      firstYearAdjustedSavings = Some (Num 146250),
      firstYearTotalCost = Infinity,
      annualROI = NaN,
      paybackPeriodMonths = Infinity,
      annualNetValue = NegInfinity,
      annualLicenseCost = Infinity,
      totalSavingsOver3Years = Num 536250,
      monthlyNetSavings = NegInfinity\<rparr>"
  by (simp add: evaluation fl_overflow)

text \<open>
  Rounding is visible in the result: with a license cost of \<^verbatim>\<open>0.1\<close> and three users the
  annual license cost \<^verbatim>\<open>0.1 * 12 * 3\<close> is \<^verbatim>\<open>3.6000000000000005\<close>.
\<close>

lemma decimal_example:
  "annualLicenseCost
     (calculations (initialState\<lparr>licenseCost := 3602879701896397 / 2 ^ 55, numUsers := 3\<rparr>)) =
     Num (8106479329266894 / 2 ^ 51)"
  by (simp add: calculations_def validateInputs_def noErrors_def Object_keys_def Let_def
      initialState_def fl_def rnd_eval [where e = 0] rnd_eval [where e = 1] round_even_def)

text \<open>
  Rounding can decide a branch. With a license cost of \<^verbatim>\<open>1.3\<close>, seven users,
  \<^verbatim>\<open>0.1\<close> hours saved and an hourly rate of 3, savings and license cost are equal in
  exact arithmetic; rounded, the savings exceed the cost by one spacing, the monthly net
  savings are positive and the payback period is finite, about \<^verbatim>\<open>4.2e18\<close> months.
\<close>

lemma rnd_thirteen_tenths: "rnd (13 / 10) = 5854679515581645 / 2 ^ 52"
  by (simp add: rnd_eval [where e = 0] round_even_def Let_def)

lemma rounding_decides_payback:
  "monthlyNetSavings
     (calculations (initialState\<lparr>licenseCost := 5854679515581645 / 2 ^ 52, numUsers := 7,
        hoursSaved := 3602879701896397 / 2 ^ 55, hourlyRate := 3\<rparr>)) =
     Num (6004799503160661 / 2 ^ 102) \<and>
   paybackPeriodMonths
     (calculations (initialState\<lparr>licenseCost := 5854679515581645 / 2 ^ 52, numUsers := 7,
        hoursSaved := 3602879701896397 / 2 ^ 55, hourlyRate := 3\<rparr>)) =
     Num 4222124650659840000"
  by (simp add: calculations_def validateInputs_def noErrors_def Object_keys_def Let_def
      initialState_def fl_def round_even_def
      rnd_eval [where e = "- 50"] rnd_eval [where e = "- 46"] rnd_eval [where e = "- 2"]
      rnd_eval [where e = 1] rnd_eval [where e = 3] rnd_eval [where e = 6]
      rnd_eval [where e = 61])

text \<open>The two shapes of the chart projection, by validity of the input.\<close>

lemma chartData_valid:
  assumes "snd (validateInputs s)"
  shows "\<exists>f. firstYearAdjustedSavings (calculations s) = Some f \<and>
           chartData (calculations s) =
             [\<lparr>name = ''Year 1'', Cost = firstYearTotalCost (calculations s),
               Savings = firstYearAdjustedSavings (calculations s),
               Net_Value = js_sub f (firstYearTotalCost (calculations s))\<rparr>,
              \<lparr>name = ''Year 2'', Cost = annualLicenseCost (calculations s),
               Savings = Some (annualSavings (calculations s)),
               Net_Value = annualNetValue (calculations s)\<rparr>,
              \<lparr>name = ''Year 3'', Cost = annualLicenseCost (calculations s),
               Savings = Some (annualSavings (calculations s)),
               Net_Value = annualNetValue (calculations s)\<rparr>]"
proof -
  from total_cost_nonneg [OF assms] have "firstYearTotalCost (calculations s) \<noteq> NaN"
    by (rule js_ge_not_NaN)
  then have "\<not> isNaN (firstYearTotalCost (calculations s))"
    by (simp add: isNaN_def split: number.splits)
  then show ?thesis
    by (simp add: chartData_def nullish_def calculations_valid(8) [OF assms] del: js_sub.simps)
qed

lemma chartData_invalid:
  assumes "\<not> snd (validateInputs s)"
  shows "chartData (calculations s) =
     [\<lparr>name = ''Year 1'', Cost = Num 0, Savings = Some (Num 0), Net_Value = Num 0\<rparr>,
      \<lparr>name = ''Year 2'', Cost = Num 0, Savings = Some (Num 0), Net_Value = Num 0\<rparr>,
      \<lparr>name = ''Year 3'', Cost = Num 0, Savings = Some (Num 0), Net_Value = Num 0\<rparr>]"
  using assms by (simp add: chartData_def calculations_invalid isNaN_def)

section \<open>The claims\<close>

text \<open>
  Claim C1. For every valid input (all six checks pass), \<^verbatim>\<open>annualROI\<close> follows a
  three-way branch on the returned \<^verbatim>\<open>firstYearTotalCost\<close> and \<^verbatim>\<open>annualNetValue\<close>, in
  the arithmetic of the language: it is \<^verbatim>\<open>(annualNetValue / firstYearTotalCost) * 100\<close>
  when \<^verbatim>\<open>firstYearTotalCost > 0\<close>, otherwise \<^verbatim>\<open>Infinity\<close> when
  \<^verbatim>\<open>annualNetValue > 0\<close>, otherwise \<open>0\<close>. At the boundary, no implementation cost, an
  annual license cost of zero and positive annual savings give \<^verbatim>\<open>Infinity\<close>.
\<close>

theorem annualROI_three_way:
  assumes "0 \<le> licenseCost s" and "1 \<le> numUsers s" and "0 \<le> hoursSaved s"
    and "0 \<le> hourlyRate s" and "0 \<le> implementationCost s" and "0 \<le> timeToValue s"
  shows "annualROI (calculations s) =
           (if js_gt (firstYearTotalCost (calculations s)) (Num 0)
            then js_mul (js_div (annualNetValue (calculations s))
                   (firstYearTotalCost (calculations s))) (Num 100)
            else if js_gt (annualNetValue (calculations s)) (Num 0) then Infinity
            else Num 0) \<and>
         (implementationCost s = 0 \<and> annualLicenseCost (calculations s) = Num 0 \<and>
          js_gt (annualSavings (calculations s)) (Num 0) \<longrightarrow>
            annualROI (calculations s) = Infinity)"
proof -
  from assms have ok: "snd (validateInputs s)"
    by (simp add: validateInputs_ok_iff)
  note c = calculations_valid [OF ok]
  have "annualROI (calculations s) = Infinity"
    if i: "implementationCost s = 0" and l: "annualLicenseCost (calculations s) = Num 0"
      and a: "js_gt (annualSavings (calculations s)) (Num 0)"
  proof -
    have t: "firstYearTotalCost (calculations s) = Num 0"
      by (simp add: c(3) l i)
    have "js_gt (js_sub (annualSavings (calculations s)) (Num 0)) (Num 0)"
    proof (cases "annualSavings (calculations s)")
      case (Num x)
      from savings_representable [OF ok Num] have "fl x = Num x" .
      with a Num show ?thesis by simp
    qed (use a in simp_all)
    then have "js_gt (annualNetValue (calculations s)) (Num 0)"
      by (simp only: c(4) l)
    with t show ?thesis by (simp add: c(5))
  qed
  with c(5) show ?thesis by blast
qed

theorem annualROI_three_way_witness:
  "(0 \<le> licenseCost initialState \<and> 1 \<le> numUsers initialState \<and>
    0 \<le> hoursSaved initialState \<and> 0 \<le> hourlyRate initialState \<and>
    0 \<le> implementationCost initialState \<and> 0 \<le> timeToValue initialState) \<and>
   firstYearTotalCost (calculations initialState) = Num 11000 \<and>
   annualNetValue (calculations initialState) = Num 189000 \<and>
   annualROI (calculations initialState) =
     js_mul (js_div (Num 189000) (Num 11000)) (Num 100) \<and>
   implementationCost (initialState\<lparr>licenseCost := 0, implementationCost := 0\<rparr>) = 0 \<and>
   annualLicenseCost (calculations (initialState\<lparr>licenseCost := 0, implementationCost := 0\<rparr>)) =
     Num 0 \<and>
   js_gt (annualSavings (calculations (initialState\<lparr>licenseCost := 0, implementationCost := 0\<rparr>)))
     (Num 0) \<and>
   annualROI (calculations (initialState\<lparr>licenseCost := 0, implementationCost := 0\<rparr>)) = Infinity"
  using annualROI_three_way [of initialState]
    annualROI_three_way [of "initialState\<lparr>licenseCost := 0, implementationCost := 0\<rparr>"]
  by (simp add: evaluation)

text \<open>
  Claim C2. For every valid input, \<^verbatim>\<open>monthlyNetSavings\<close> is
  \<^verbatim>\<open>(annualSavings - annualLicenseCost) / 12\<close>, and \<^verbatim>\<open>paybackPeriodMonths\<close> is
  \<^verbatim>\<open>timeToValue + implementationCost / monthlyNetSavings\<close> when
  \<^verbatim>\<open>monthlyNetSavings > 0\<close> and \<^verbatim>\<open>Infinity\<close> otherwise, in the arithmetic of the language.
\<close>

theorem paybackPeriodMonths_branch:
  assumes "0 \<le> licenseCost s" and "1 \<le> numUsers s" and "0 \<le> hoursSaved s"
    and "0 \<le> hourlyRate s" and "0 \<le> implementationCost s" and "0 \<le> timeToValue s"
  shows "monthlyNetSavings (calculations s) =
           js_div (js_sub (annualSavings (calculations s)) (annualLicenseCost (calculations s)))
             (Num 12) \<and>
         paybackPeriodMonths (calculations s) =
           (if js_gt (monthlyNetSavings (calculations s)) (Num 0)
            then js_add (Num (timeToValue s))
                   (js_div (Num (implementationCost s)) (monthlyNetSavings (calculations s)))
            else Infinity)"
proof -
  from assms have ok: "snd (validateInputs s)"
    by (simp add: validateInputs_ok_iff)
  from calculations_valid(6,7) [OF ok] show ?thesis by (rule conjI)
qed

theorem paybackPeriodMonths_branch_witness:
  "(0 \<le> licenseCost initialState \<and> 1 \<le> numUsers initialState \<and>
    0 \<le> hoursSaved initialState \<and> 0 \<le> hourlyRate initialState \<and>
    0 \<le> implementationCost initialState \<and> 0 \<le> timeToValue initialState) \<and>
   monthlyNetSavings (calculations initialState) = Num 15750 \<and>
   paybackPeriodMonths (calculations initialState) =
     js_add (Num 3) (js_div (Num 5000) (Num 15750))"
  using paybackPeriodMonths_branch [of initialState]
  by (simp add: evaluation)

text \<open>
  Claim C3, as stated: an input that fails a check gives \<^verbatim>\<open>NaN\<close> in all eight fields, and
  no input gives \<^verbatim>\<open>NaN\<close> in some fields beside derived values in others. The second part
  fails: the valid input with license cost \<open>2 ^ 1023\<close> (a binary64 value) and the other
  variables at their initial values has \<^verbatim>\<open>annualROI = NaN\<close> beside
  \<^verbatim>\<open>annualSavings = 195000\<close>, because the annual license cost overflows.
\<close>

theorem mixed_NaN_counterexample:
  "(0 \<le> licenseCost (initialState\<lparr>licenseCost := 2 ^ 1023\<rparr>) \<and>
    1 \<le> numUsers (initialState\<lparr>licenseCost := 2 ^ 1023\<rparr>) \<and>
    0 \<le> hoursSaved (initialState\<lparr>licenseCost := 2 ^ 1023\<rparr>) \<and>
    0 \<le> hourlyRate (initialState\<lparr>licenseCost := 2 ^ 1023\<rparr>) \<and>
    0 \<le> implementationCost (initialState\<lparr>licenseCost := 2 ^ 1023\<rparr>) \<and>
    0 \<le> timeToValue (initialState\<lparr>licenseCost := 2 ^ 1023\<rparr>)) \<and>
   fl (2 ^ 1023) = Num (2 ^ 1023) \<and>
   annualROI (calculations (initialState\<lparr>licenseCost := 2 ^ 1023\<rparr>)) = NaN \<and>
   annualSavings (calculations (initialState\<lparr>licenseCost := 2 ^ 1023\<rparr>)) = Num 195000 \<and>
   totalSavingsOver3Years (calculations (initialState\<lparr>licenseCost := 2 ^ 1023\<rparr>)) =
     Num 536250"
proof -
  let ?s = "initialState\<lparr>licenseCost := 2 ^ 1023\<rparr>"
  have "0 \<le> licenseCost ?s" and "1 \<le> numUsers ?s" and "0 \<le> hoursSaved ?s"
    and "0 \<le> hourlyRate ?s" and "0 \<le> implementationCost ?s" and "0 \<le> timeToValue ?s"
    by (simp_all add: initialState_def)
  moreover have "fl (2 ^ 1023) = Num (2 ^ 1023)"
    using rnd_dyadic [of 1 1023] by (simp add: fl_def)
  moreover have "annualROI (calculations ?s) = NaN"
    and "annualSavings (calculations ?s) = Num 195000"
    and "totalSavingsOver3Years (calculations ?s) = Num 536250"
    by (simp_all only: calculations_overflow Calculations.select_convs)
  ultimately show ?thesis by (intro conjI)
qed

text \<open>
  Claim C3, amended. For every input that fails at least one of the six checks, each of the
  eight fields \<^verbatim>\<open>annualSavings\<close>, \<^verbatim>\<open>firstYearTotalCost\<close>, \<^verbatim>\<open>annualROI\<close>,
  \<^verbatim>\<open>paybackPeriodMonths\<close>, \<^verbatim>\<open>annualNetValue\<close>, \<^verbatim>\<open>annualLicenseCost\<close>,
  \<^verbatim>\<open>totalSavingsOver3Years\<close> and \<^verbatim>\<open>monthlyNetSavings\<close> is \<^verbatim>\<open>NaN\<close>. For every valid
  input whose \<^verbatim>\<open>annualLicenseCost\<close> and \<^verbatim>\<open>annualSavings\<close> are finite, none of the eight
  fields is \<^verbatim>\<open>NaN\<close>.
\<close>

theorem invalid_all_NaN:
  "(licenseCost s < 0 \<or> numUsers s < 1 \<or> hoursSaved s < 0 \<or> hourlyRate s < 0 \<or>
    implementationCost s < 0 \<or> timeToValue s < 0 \<longrightarrow>
      annualSavings (calculations s) = NaN \<and>
      firstYearTotalCost (calculations s) = NaN \<and>
      annualROI (calculations s) = NaN \<and>
      paybackPeriodMonths (calculations s) = NaN \<and>
      annualNetValue (calculations s) = NaN \<and>
      annualLicenseCost (calculations s) = NaN \<and>
      totalSavingsOver3Years (calculations s) = NaN \<and>
      monthlyNetSavings (calculations s) = NaN) \<and>
   (0 \<le> licenseCost s \<and> 1 \<le> numUsers s \<and> 0 \<le> hoursSaved s \<and> 0 \<le> hourlyRate s \<and>
    0 \<le> implementationCost s \<and> 0 \<le> timeToValue s \<and>
    (\<exists>l. annualLicenseCost (calculations s) = Num l) \<and>
    (\<exists>a. annualSavings (calculations s) = Num a) \<longrightarrow>
      annualSavings (calculations s) \<noteq> NaN \<and>
      firstYearTotalCost (calculations s) \<noteq> NaN \<and>
      annualROI (calculations s) \<noteq> NaN \<and>
      paybackPeriodMonths (calculations s) \<noteq> NaN \<and>
      annualNetValue (calculations s) \<noteq> NaN \<and>
      annualLicenseCost (calculations s) \<noteq> NaN \<and>
      totalSavingsOver3Years (calculations s) \<noteq> NaN \<and>
      monthlyNetSavings (calculations s) \<noteq> NaN)"
proof (cases "snd (validateInputs s)")
  case True
  then have v: "\<not> (licenseCost s < 0 \<or> numUsers s < 1 \<or> hoursSaved s < 0 \<or>
      hourlyRate s < 0 \<or> implementationCost s < 0 \<or> timeToValue s < 0)"
    by (auto simp add: validateInputs_ok_iff)
  have "annualSavings (calculations s) \<noteq> NaN \<and>
      firstYearTotalCost (calculations s) \<noteq> NaN \<and>
      annualROI (calculations s) \<noteq> NaN \<and>
      paybackPeriodMonths (calculations s) \<noteq> NaN \<and>
      annualNetValue (calculations s) \<noteq> NaN \<and>
      annualLicenseCost (calculations s) \<noteq> NaN \<and>
      totalSavingsOver3Years (calculations s) \<noteq> NaN \<and>
      monthlyNetSavings (calculations s) \<noteq> NaN"
    if "annualLicenseCost (calculations s) = Num l" and "annualSavings (calculations s) = Num a"
    for l a
    using finite_no_NaN [OF True that] that by simp
  with v show ?thesis by blast
next
  case False
  then have "\<not> (0 \<le> licenseCost s \<and> 1 \<le> numUsers s \<and> 0 \<le> hoursSaved s \<and>
      0 \<le> hourlyRate s \<and> 0 \<le> implementationCost s \<and> 0 \<le> timeToValue s)"
    by (simp add: validateInputs_ok_iff)
  then show ?thesis
    using False by (simp add: calculations_invalid)
qed

theorem invalid_all_NaN_witness:
  "hourlyRate (initialState\<lparr>hourlyRate := - 1\<rparr>) < 0 \<and>
   annualSavings (calculations (initialState\<lparr>hourlyRate := - 1\<rparr>)) = NaN \<and>
   annualROI (calculations (initialState\<lparr>hourlyRate := - 1\<rparr>)) = NaN \<and>
   paybackPeriodMonths (calculations (initialState\<lparr>hourlyRate := - 1\<rparr>)) = NaN \<and>
   (0 \<le> licenseCost initialState \<and> 1 \<le> numUsers initialState \<and>
    0 \<le> hoursSaved initialState \<and> 0 \<le> hourlyRate initialState \<and>
    0 \<le> implementationCost initialState \<and> 0 \<le> timeToValue initialState) \<and>
   annualLicenseCost (calculations initialState) = Num 6000 \<and>
   annualSavings (calculations initialState) = Num 195000 \<and>
   annualROI (calculations initialState) \<noteq> NaN \<and>
   totalSavingsOver3Years (calculations initialState) \<noteq> NaN"
proof -
  have "annualLicenseCost (calculations initialState) = Num 6000"
    and "annualSavings (calculations initialState) = Num 195000"
    by (simp_all add: evaluation)
  then show ?thesis
    using invalid_all_NaN [of "initialState\<lparr>hourlyRate := - 1\<rparr>"]
      invalid_all_NaN [of initialState]
    by (simp add: initialState_valid)
qed

text \<open>
  Claim C4. Validation fails if and only if at least one of the six checks fails, and the
  keys of the stored error object are exactly the fields whose check failed: a field is a
  key if and only if its own check failed, and there are no other keys.
\<close>

theorem validateInputs_exact:
  "(\<not> snd (validateInputs s)) =
     (licenseCost s < 0 \<or> numUsers s < 1 \<or> hoursSaved s < 0 \<or> hourlyRate s < 0 \<or>
      implementationCost s < 0 \<or> timeToValue s < 0) \<and>
   (''licenseCost'' \<in> set (Object_keys (fst (validateInputs s)))) = (licenseCost s < 0) \<and>
   (''numUsers'' \<in> set (Object_keys (fst (validateInputs s)))) = (numUsers s < 1) \<and>
   (''hoursSaved'' \<in> set (Object_keys (fst (validateInputs s)))) = (hoursSaved s < 0) \<and>
   (''hourlyRate'' \<in> set (Object_keys (fst (validateInputs s)))) = (hourlyRate s < 0) \<and>
   (''implementationCost'' \<in> set (Object_keys (fst (validateInputs s)))) =
     (implementationCost s < 0) \<and>
   (''timeToValue'' \<in> set (Object_keys (fst (validateInputs s)))) = (timeToValue s < 0) \<and>
   set (Object_keys (fst (validateInputs s))) \<subseteq>
     {''licenseCost'', ''numUsers'', ''hoursSaved'', ''hourlyRate'', ''implementationCost'',
      ''timeToValue''}"
proof -
  have "(\<not> snd (validateInputs s)) =
     (licenseCost s < 0 \<or> numUsers s < 1 \<or> hoursSaved s < 0 \<or> hourlyRate s < 0 \<or>
      implementationCost s < 0 \<or> timeToValue s < 0)"
    by (auto simp add: validateInputs_ok_iff)
  moreover have "(''licenseCost'' \<in> set (Object_keys (fst (validateInputs s)))) = (licenseCost s < 0)"
    by (simp add: validateInputs_errors Object_keys_def)
  moreover have "(''numUsers'' \<in> set (Object_keys (fst (validateInputs s)))) = (numUsers s < 1)"
    by (simp add: validateInputs_errors Object_keys_def)
  moreover have "(''hoursSaved'' \<in> set (Object_keys (fst (validateInputs s)))) = (hoursSaved s < 0)"
    by (simp add: validateInputs_errors Object_keys_def)
  moreover have "(''hourlyRate'' \<in> set (Object_keys (fst (validateInputs s)))) = (hourlyRate s < 0)"
    by (simp add: validateInputs_errors Object_keys_def)
  moreover have "(''implementationCost'' \<in> set (Object_keys (fst (validateInputs s)))) =
     (implementationCost s < 0)"
    by (simp add: validateInputs_errors Object_keys_def)
  moreover have "(''timeToValue'' \<in> set (Object_keys (fst (validateInputs s)))) = (timeToValue s < 0)"
    by (simp add: validateInputs_errors Object_keys_def)
  moreover have "set (Object_keys (fst (validateInputs s))) \<subseteq>
     {''licenseCost'', ''numUsers'', ''hoursSaved'', ''hourlyRate'', ''implementationCost'',
      ''timeToValue''}"
    by (simp add: validateInputs_errors Object_keys_def)
  ultimately show ?thesis by blast
qed

text \<open>
  Claim C5. For every valid input, \<^verbatim>\<open>annualLicenseCost\<close> is \<^verbatim>\<open>numUsers\<close> times the
  license cost per user (taken as it is under annual pricing, times 12 under monthly
  pricing), and \<^verbatim>\<open>annualSavings\<close> is \<^verbatim>\<open>hoursSaved * hourlyRate * numUsers * 52\<close>, in
  the arithmetic of the language.
\<close>

theorem license_and_savings:
  assumes "0 \<le> licenseCost s" and "1 \<le> numUsers s" and "0 \<le> hoursSaved s"
    and "0 \<le> hourlyRate s" and "0 \<le> implementationCost s" and "0 \<le> timeToValue s"
  shows "annualLicenseCost (calculations s) =
           js_mul (Num (numUsers s))
             (if pricingModel s = annual then Num (licenseCost s)
              else js_mul (Num (licenseCost s)) (Num 12)) \<and>
         annualSavings (calculations s) =
           js_mul (js_mul (js_mul (Num (hoursSaved s)) (Num (hourlyRate s))) (Num (numUsers s)))
             (Num 52)"
proof -
  from assms have ok: "snd (validateInputs s)"
    by (simp add: validateInputs_ok_iff)
  from calculations_valid(1) [OF ok]
  have "annualLicenseCost (calculations s) =
           js_mul (Num (numUsers s))
             (if pricingModel s = annual then Num (licenseCost s)
              else js_mul (Num (licenseCost s)) (Num 12))"
    by (simp only: js_mul_commute [of _ "Num (numUsers s)"])
  with calculations_valid(2) [OF ok] show ?thesis by simp
qed

theorem license_and_savings_witness:
  "(0 \<le> licenseCost initialState \<and> 1 \<le> numUsers initialState \<and>
    0 \<le> hoursSaved initialState \<and> 0 \<le> hourlyRate initialState \<and>
    0 \<le> implementationCost initialState \<and> 0 \<le> timeToValue initialState) \<and>
   annualLicenseCost (calculations initialState) = Num 6000 \<and>
   annualSavings (calculations initialState) = Num 195000"
  using license_and_savings [of initialState]
  by (simp add: evaluation)

text \<open>
  Claim C6. For every valid input, \<^verbatim>\<open>firstYearAdjustedSavings\<close> is
  \<^verbatim>\<open>annualSavings * (Math.max(0, 12 - timeToValue) / 12)\<close> and
  \<^verbatim>\<open>totalSavingsOver3Years\<close> is \<^verbatim>\<open>firstYearAdjustedSavings + annualSavings * 2\<close>, in the
  arithmetic of the language.
\<close>

theorem three_year_savings:
  assumes "0 \<le> licenseCost s" and "1 \<le> numUsers s" and "0 \<le> hoursSaved s"
    and "0 \<le> hourlyRate s" and "0 \<le> implementationCost s" and "0 \<le> timeToValue s"
  shows "\<exists>f. firstYearAdjustedSavings (calculations s) = Some f \<and>
           f = js_mul (annualSavings (calculations s))
                 (js_div (Math_max (Num 0) (js_sub (Num 12) (Num (timeToValue s)))) (Num 12)) \<and>
           totalSavingsOver3Years (calculations s) =
             js_add f (js_mul (annualSavings (calculations s)) (Num 2))"
proof -
  from assms have ok: "snd (validateInputs s)"
    by (simp add: validateInputs_ok_iff)
  from calculations_valid(8,9) [OF ok] show ?thesis by blast
qed

theorem three_year_savings_witness:
  "(0 \<le> licenseCost initialState \<and> 1 \<le> numUsers initialState \<and>
    0 \<le> hoursSaved initialState \<and> 0 \<le> hourlyRate initialState \<and>
    0 \<le> implementationCost initialState \<and> 0 \<le> timeToValue initialState) \<and>
   annualSavings (calculations initialState) = Num 195000 \<and>
   firstYearAdjustedSavings (calculations initialState) = Some (Num 146250) \<and>
   totalSavingsOver3Years (calculations initialState) = Num 536250"
  using three_year_savings [of initialState]
  by (simp add: evaluation)

text \<open>
  Claim C7. On the input with license cost 50, 10 users, 5 hours saved per user and week,
  hourly rate 75, implementation cost 5000, time to value 3 and monthly pricing, the
  computation yields annual license cost 6000, annual savings 195000, first-year total
  cost 11000, annual net value 189000, monthly net savings 15750, first-year adjusted
  savings 146250, three-year savings 536250, an ROI that is 1718.2 to one decimal place
  and a payback period that is 3.317 to three decimal places.
\<close>

theorem end_to_end_example:
  "\<exists>roi payback.
     calculations
       \<lparr>licenseCost = 50, numUsers = 10, hoursSaved = 5, hourlyRate = 75,
        implementationCost = 5000, timeToValue = 3, pricingModel = monthly\<rparr> =
     \<lparr>annualSavings = Num 195000,
      firstYearAdjustedSavings = Some (Num 146250),
      firstYearTotalCost = Num 11000,
      annualROI = Num roi,
      paybackPeriodMonths = Num payback,
      annualNetValue = Num 189000,
      annualLicenseCost = Num 6000,
      totalSavingsOver3Years = Num 536250,
      monthlyNetSavings = Num 15750\<rparr> \<and>
     \<bar>roi - 1718.2\<bar> < 0.05 \<and> \<bar>payback - 3.317\<bar> < 0.0005"
proof -
  obtain roi payback where c: "calculations initialState =
       \<lparr>annualSavings = Num 195000,
        firstYearAdjustedSavings = Some (Num 146250),
        firstYearTotalCost = Num 11000,
        annualROI = Num roi,
        paybackPeriodMonths = Num payback,
        annualNetValue = Num 189000,
        annualLicenseCost = Num 6000,
        totalSavingsOver3Years = Num 536250,
        monthlyNetSavings = Num 15750\<rparr>"
    and r: "112602700 / 65536 \<le> roi" "roi \<le> 112602800 / 65536"
    and p: "217413 / 65536 \<le> payback" "payback \<le> 217414 / 65536"
    by (rule calculations_initialState)
  from r have "\<bar>roi - 1718.2\<bar> < 0.05" by simp
  moreover from p have "\<bar>payback - 3.317\<bar> < 0.0005" by simp
  ultimately show ?thesis
    using c unfolding initialState_def by blast
qed

text \<open>
  Claim C8. The chart projection always has three points. For every valid input, Year 1
  has the first-year total cost as cost, the first-year adjusted savings as savings and
  their difference (the \<^verbatim>\<open>-\<close> of the language) as net value, and Years 2 and 3 each have
  the annual license cost, the annual savings and the annual net value. For every invalid
  input all three points have cost, savings and net value 0.
\<close>

theorem chartData_three_points:
  "length (chartData (calculations s)) = 3 \<and>
   (0 \<le> licenseCost s \<and> 1 \<le> numUsers s \<and> 0 \<le> hoursSaved s \<and> 0 \<le> hourlyRate s \<and>
    0 \<le> implementationCost s \<and> 0 \<le> timeToValue s \<longrightarrow>
      (\<exists>f. firstYearAdjustedSavings (calculations s) = Some f \<and>
         chartData (calculations s) =
           [\<lparr>name = ''Year 1'', Cost = firstYearTotalCost (calculations s),
             Savings = firstYearAdjustedSavings (calculations s),
             Net_Value = js_sub f (firstYearTotalCost (calculations s))\<rparr>,
            \<lparr>name = ''Year 2'', Cost = annualLicenseCost (calculations s),
             Savings = Some (annualSavings (calculations s)),
             Net_Value = annualNetValue (calculations s)\<rparr>,
            \<lparr>name = ''Year 3'', Cost = annualLicenseCost (calculations s),
             Savings = Some (annualSavings (calculations s)),
             Net_Value = annualNetValue (calculations s)\<rparr>])) \<and>
   (licenseCost s < 0 \<or> numUsers s < 1 \<or> hoursSaved s < 0 \<or> hourlyRate s < 0 \<or>
    implementationCost s < 0 \<or> timeToValue s < 0 \<longrightarrow>
      chartData (calculations s) =
        [\<lparr>name = ''Year 1'', Cost = Num 0, Savings = Some (Num 0), Net_Value = Num 0\<rparr>,
         \<lparr>name = ''Year 2'', Cost = Num 0, Savings = Some (Num 0), Net_Value = Num 0\<rparr>,
         \<lparr>name = ''Year 3'', Cost = Num 0, Savings = Some (Num 0), Net_Value = Num 0\<rparr>])"
proof (cases "snd (validateInputs s)")
  case True
  from chartData_valid [OF True] have len: "length (chartData (calculations s)) = 3"
    by auto
  from True have "\<not> (licenseCost s < 0 \<or> numUsers s < 1 \<or> hoursSaved s < 0 \<or>
      hourlyRate s < 0 \<or> implementationCost s < 0 \<or> timeToValue s < 0)"
    by (auto simp add: validateInputs_ok_iff)
  with len chartData_valid [OF True] show ?thesis
    by blast
next
  case False
  then have "\<not> (0 \<le> licenseCost s \<and> 1 \<le> numUsers s \<and> 0 \<le> hoursSaved s \<and>
      0 \<le> hourlyRate s \<and> 0 \<le> implementationCost s \<and> 0 \<le> timeToValue s)"
    by (simp add: validateInputs_ok_iff)
  moreover from chartData_invalid [OF False]
  have "length (chartData (calculations s)) = 3"
    by simp
  ultimately show ?thesis
    using chartData_invalid [OF False] by blast
qed

theorem chartData_three_points_witness:
  "(0 \<le> licenseCost initialState \<and> 1 \<le> numUsers initialState \<and>
    0 \<le> hoursSaved initialState \<and> 0 \<le> hourlyRate initialState \<and>
    0 \<le> implementationCost initialState \<and> 0 \<le> timeToValue initialState) \<and>
   chartData (calculations initialState) =
     [\<lparr>name = ''Year 1'', Cost = Num 11000, Savings = Some (Num 146250),
       Net_Value = Num 135250\<rparr>,
      \<lparr>name = ''Year 2'', Cost = Num 6000, Savings = Some (Num 195000),
       Net_Value = Num 189000\<rparr>,
      \<lparr>name = ''Year 3'', Cost = Num 6000, Savings = Some (Num 195000),
       Net_Value = Num 189000\<rparr>] \<and>
   numUsers (initialState\<lparr>numUsers := 0\<rparr>) < 1 \<and>
   chartData (calculations (initialState\<lparr>numUsers := 0\<rparr>)) =
     [\<lparr>name = ''Year 1'', Cost = Num 0, Savings = Some (Num 0), Net_Value = Num 0\<rparr>,
      \<lparr>name = ''Year 2'', Cost = Num 0, Savings = Some (Num 0), Net_Value = Num 0\<rparr>,
      \<lparr>name = ''Year 3'', Cost = Num 0, Savings = Some (Num 0), Net_Value = Num 0\<rparr>]"
proof -
  have "firstYearAdjustedSavings (calculations initialState) = Some (Num 146250)"
    and "firstYearTotalCost (calculations initialState) = Num 11000"
    and "annualLicenseCost (calculations initialState) = Num 6000"
    and "annualSavings (calculations initialState) = Num 195000"
    and "annualNetValue (calculations initialState) = Num 189000"
    by (simp_all add: evaluation)
  then show ?thesis
    using chartData_three_points [of initialState]
      chartData_three_points [of "initialState\<lparr>numUsers := 0\<rparr>"]
    by (simp add: initialState_valid fl_integer)
qed

text \<open>
  Claim C9, as stated: for every valid input \<^verbatim>\<open>annualROI >= -100\<close>. It fails on the
  valid input with license cost \<open>2 ^ 1023\<close>: the annual license cost overflows,
  \<^verbatim>\<open>annualROI\<close> is \<^verbatim>\<open>NaN\<close>, and \<^verbatim>\<open>NaN >= -100\<close> is false.
\<close>

theorem annualROI_NaN_counterexample:
  "(0 \<le> licenseCost (initialState\<lparr>licenseCost := 2 ^ 1023\<rparr>) \<and>
    1 \<le> numUsers (initialState\<lparr>licenseCost := 2 ^ 1023\<rparr>) \<and>
    0 \<le> hoursSaved (initialState\<lparr>licenseCost := 2 ^ 1023\<rparr>) \<and>
    0 \<le> hourlyRate (initialState\<lparr>licenseCost := 2 ^ 1023\<rparr>) \<and>
    0 \<le> implementationCost (initialState\<lparr>licenseCost := 2 ^ 1023\<rparr>) \<and>
    0 \<le> timeToValue (initialState\<lparr>licenseCost := 2 ^ 1023\<rparr>)) \<and>
   fl (2 ^ 1023) = Num (2 ^ 1023) \<and>
   \<not> js_ge (annualROI (calculations (initialState\<lparr>licenseCost := 2 ^ 1023\<rparr>))) (Num (- 100))"
proof -
  let ?s = "initialState\<lparr>licenseCost := 2 ^ 1023\<rparr>"
  have "0 \<le> licenseCost ?s" and "1 \<le> numUsers ?s" and "0 \<le> hoursSaved ?s"
    and "0 \<le> hourlyRate ?s" and "0 \<le> implementationCost ?s" and "0 \<le> timeToValue ?s"
    by (simp_all add: initialState_def)
  moreover have "fl (2 ^ 1023) = Num (2 ^ 1023)"
    using rnd_dyadic [of 1 1023] by (simp add: fl_def)
  moreover have "annualROI (calculations ?s) = NaN"
    by (simp only: calculations_overflow Calculations.select_convs)
  then have "\<not> js_ge (annualROI (calculations ?s)) (Num (- 100))"
    by (simp only: js_ge.simps simp_thms)
  ultimately show ?thesis by (intro conjI)
qed

text \<open>
  Claim C9, amended. For every valid input, \<^verbatim>\<open>annualROI\<close> is \<^verbatim>\<open>NaN\<close> or at least
  \<open>-100\<close>; it is at least \<open>-100\<close> whenever \<^verbatim>\<open>annualLicenseCost\<close> and
  \<^verbatim>\<open>annualSavings\<close> are finite. The bound is attained: with no savings and no
  implementation cost the ROI is exactly \<open>-100\<close>.
\<close>

theorem annualROI_ge_minus_100:
  assumes "0 \<le> licenseCost s" and "1 \<le> numUsers s" and "0 \<le> hoursSaved s"
    and "0 \<le> hourlyRate s" and "0 \<le> implementationCost s" and "0 \<le> timeToValue s"
  shows "(annualROI (calculations s) = NaN \<or>
          js_ge (annualROI (calculations s)) (Num (- 100))) \<and>
         ((\<exists>l. annualLicenseCost (calculations s) = Num l) \<and>
          (\<exists>a. annualSavings (calculations s) = Num a) \<longrightarrow>
            js_ge (annualROI (calculations s)) (Num (- 100)))"
proof -
  from assms have ok: "snd (validateInputs s)"
    by (simp add: validateInputs_ok_iff)
  have "js_ge (annualROI (calculations s)) (Num (- 100))"
    if "annualLicenseCost (calculations s) = Num l" and "annualSavings (calculations s) = Num a"
    for l a
    using that by (intro roi_valid(2) [OF ok]) simp_all
  with roi_valid(1) [OF ok] show ?thesis by blast
qed

theorem annualROI_ge_minus_100_witness:
  "(0 \<le> licenseCost (initialState\<lparr>hoursSaved := 0, implementationCost := 0\<rparr>) \<and>
    1 \<le> numUsers (initialState\<lparr>hoursSaved := 0, implementationCost := 0\<rparr>) \<and>
    0 \<le> hoursSaved (initialState\<lparr>hoursSaved := 0, implementationCost := 0\<rparr>) \<and>
    0 \<le> hourlyRate (initialState\<lparr>hoursSaved := 0, implementationCost := 0\<rparr>) \<and>
    0 \<le> implementationCost (initialState\<lparr>hoursSaved := 0, implementationCost := 0\<rparr>) \<and>
    0 \<le> timeToValue (initialState\<lparr>hoursSaved := 0, implementationCost := 0\<rparr>)) \<and>
   annualLicenseCost (calculations (initialState\<lparr>hoursSaved := 0, implementationCost := 0\<rparr>)) =
     Num 6000 \<and>
   annualSavings (calculations (initialState\<lparr>hoursSaved := 0, implementationCost := 0\<rparr>)) =
     Num 0 \<and>
   annualROI (calculations (initialState\<lparr>hoursSaved := 0, implementationCost := 0\<rparr>)) =
     Num (- 100) \<and>
   js_ge (annualROI (calculations (initialState\<lparr>hoursSaved := 0, implementationCost := 0\<rparr>)))
     (Num (- 100))"
  using annualROI_ge_minus_100 [of "initialState\<lparr>hoursSaved := 0, implementationCost := 0\<rparr>"]
  by (simp add: evaluation)

text \<open>
  Claim C10. Validation accepts a user count that is not an integer: with
  \<open>numUsers = 3 / 2\<close> and the other fields at their initial values, no error is stored,
  validation returns true and the metrics are derived from the fractional count. For every
  input, the only check on \<^verbatim>\<open>numUsers\<close> is \<open>numUsers < 1\<close>.
\<close>

theorem fractional_numUsers_accepted:
  "numUsers (initialState\<lparr>numUsers := 3 / 2\<rparr>) \<notin> \<int> \<and>
   validateInputs (initialState\<lparr>numUsers := 3 / 2\<rparr>) = (noErrors, True) \<and>
   annualLicenseCost (calculations (initialState\<lparr>numUsers := 3 / 2\<rparr>)) = Num 900 \<and>
   annualSavings (calculations (initialState\<lparr>numUsers := 3 / 2\<rparr>)) = Num 29250 \<and>
   numUsers_err (fst (validateInputs s)) =
     (if numUsers s < 1 then Some ''Must be at least 1.'' else None)"
proof -
  have h: "fl (1125 / 2) = Num (1125 / 2)"
    by (rule fl_exact [where n = 1]) simp_all
  have "numUsers (initialState\<lparr>numUsers := 3 / 2\<rparr>) \<notin> \<int>"
    by simp
  moreover have v: "validateInputs (initialState\<lparr>numUsers := 3 / 2\<rparr>) = (noErrors, True)"
    by (simp add: initialState_def validateInputs_def noErrors_def Object_keys_def Let_def)
  moreover have "annualLicenseCost (calculations (initialState\<lparr>numUsers := 3 / 2\<rparr>)) = Num 900"
    and "annualSavings (calculations (initialState\<lparr>numUsers := 3 / 2\<rparr>)) = Num 29250"
    by (simp_all add: evaluation h)
  moreover have "numUsers_err (fst (validateInputs s)) =
     (if numUsers s < 1 then Some ''Must be at least 1.'' else None)"
    by (simp add: validateInputs_errors)
  ultimately show ?thesis by blast
qed

end
